theory Spec2Isabelle
  imports Main "HOL-Library.Word" "HOL-Library.Multiset"
begin

section \<open>Strings and runtime values\<close>

text \<open>
  A string of the program is a sequence of UTF-16 code units. The three ideographs of
  the date pattern are single code units: U+5E74 (year), U+6708 (month), U+65E5 (day).
  A value that may be \<open>undefined\<close> at run time (a cell read past the end of a row, a
  column whose header is missing) is an \<open>option\<close>, \<open>None\<close> being \<open>undefined\<close>.
\<close>

type_synonym jsstring = "16 word list"

definition ascii :: "string \<Rightarrow> jsstring" where
  "ascii s = map of_char s"

datatype error = TypeError

text \<open>
  A \<open>Date\<close> object holds a time value in milliseconds since the epoch, or NaN
  (an invalid date). Time values are modelled as integers: every valid time value is an
  integer of magnitude at most 8.64e15, which a double represents exactly.
\<close>

datatype date = TimeValue int | InvalidDate

text \<open>One row of the input, as \<open>interface Task\<close> declares it.\<close>

type_synonym cell = "jsstring option"

record Task =
  status :: cell
  taskName :: cell
  assignee :: cell
  due :: cell
  user :: cell
  userName :: cell

text \<open>
  What the program takes from its environment: the offset of local time from UTC
  (\<open>LocalTZA\<close>, at a local time), the runtime's parser of date strings
  (\<open>new Date(string)\<close>, implementation-defined, an invalid date where it fails), the
  clock read by \<open>new Date()\<close>, and the order in which the engine's
  \<open>Array.prototype.sort\<close> leaves an array whose comparator is not consistent
  (implementation-defined). In the pass and in the filter one reading of the clock
  serves the whole call; the comparator of the sort takes its readings as arguments.
\<close>

record runtime =
  LocalTZA :: "int \<Rightarrow> int"
  Date_parse :: "jsstring \<Rightarrow> date"
  Date_now :: int
  Array_sort :: "Task list \<Rightarrow> Task list"

section \<open>The Date constructor\<close>

definition msPerDay :: int where
  "msPerDay = 86400000"

definition maxTimeValue :: int where
  "maxTimeValue = 8640000000000000"

definition DayFromYear :: "int \<Rightarrow> int" where
  "DayFromYear y =
     365 * (y - 1970) + (y - 1969) div 4 - (y - 1901) div 100 + (y - 1601) div 400"

definition InLeapYear :: "int \<Rightarrow> bool" where
  "InLeapYear y = ((y mod 4 = 0 \<and> y mod 100 \<noteq> 0) \<or> y mod 400 = 0)"

text \<open>
  The day within the year on which month \<open>mn\<close> starts; \<open>MakeDay\<close> calls it with
  \<open>mn\<close> from 0 to 11.
\<close>

definition MonthStart :: "int \<Rightarrow> int \<Rightarrow> int" where
  "MonthStart y mn =
     [0, 31, 59, 90, 120, 151, 181, 212, 243, 273, 304, 334] ! nat mn
       + (if 2 \<le> mn \<and> InLeapYear y then 1 else 0)"

definition MakeDay :: "int \<Rightarrow> int \<Rightarrow> int \<Rightarrow> int" where
  "MakeDay year month dt =
     (let ym = year + month div 12; mn = month mod 12
      in DayFromYear ym + MonthStart ym mn + dt - 1)"

definition MakeDate :: "int \<Rightarrow> int \<Rightarrow> int" where
  "MakeDate day time = day * msPerDay + time"

definition TimeClip :: "int \<Rightarrow> date" where
  "TimeClip t = (if \<bar>t\<bar> > maxTimeValue then InvalidDate else TimeValue t)"

definition UTC :: "runtime \<Rightarrow> int \<Rightarrow> int" where
  "UTC rt t = t - LocalTZA rt t"

text \<open>The constructor reads a year from 0 to 99 as a year of the twentieth century.\<close>

definition MakeFullYear :: "int \<Rightarrow> int" where
  "MakeFullYear y = (if 0 \<le> y \<and> y \<le> 99 then 1900 + y else y)"

text \<open>\<open>new Date(year, month, day)\<close>: local midnight of that day.\<close>

definition Date_ymd :: "runtime \<Rightarrow> int \<Rightarrow> int \<Rightarrow> int \<Rightarrow> date" where
  "Date_ymd rt year month day =
     TimeClip (UTC rt (MakeDate (MakeDay (MakeFullYear year) month day) 0))"

text \<open>\<open>new Date(value)\<close> for a number.\<close>

definition Date_value :: "int \<Rightarrow> date" where
  "Date_value v = TimeClip v"

text \<open>\<open>new Date(string)\<close>.\<close>

definition Date_string :: "runtime \<Rightarrow> jsstring \<Rightarrow> date" where
  "Date_string rt s = Date_parse rt s"

text \<open>
  Relational operators on dates compare the time values; every comparison with NaN
  is false.
\<close>

fun date_ge :: "date \<Rightarrow> date \<Rightarrow> bool" where
  "date_ge (TimeValue a) (TimeValue b) = (a \<ge> b)"
| "date_ge _ _ = False"

fun date_le :: "date \<Rightarrow> date \<Rightarrow> bool" where
  "date_le (TimeValue a) (TimeValue b) = (a \<le> b)"
| "date_le _ _ = False"

section \<open>parseJapaneseDate\<close>

definition isDigit :: "16 word \<Rightarrow> bool" where
  "isDigit c = (0x30 \<le> c \<and> c \<le> 0x39)"

definition NEN :: "16 word" where "NEN = 0x5E74"
definition GATSU :: "16 word" where "GATSU = 0x6708"
definition NICHI :: "16 word" where "NICHI = 0x65E5"

text \<open>
  The group \<open>(\d+)\<close> is greedy, and each group of the pattern is followed by a
  character that is not a digit: only the longest run of digits can be followed by it,
  so backtracking into a shorter run never succeeds. \<open>digits1\<close> returns that run and
  the rest of the string.
\<close>

definition digits1 :: "jsstring \<Rightarrow> (jsstring \<times> jsstring) option" where
  "digits1 s =
     (let ds = takeWhile isDigit s
      in if ds = [] then None else Some (ds, dropWhile isDigit s))"

fun lit :: "16 word \<Rightarrow> jsstring \<Rightarrow> jsstring option" where
  "lit c [] = None"
| "lit c (x # xs) = (if x = c then Some xs else None)"

text \<open>The pattern \<open>(\d+)Y(\d+)M(\d+)D\<close> matched at the start of \<open>s\<close>.\<close>

definition match_here :: "jsstring \<Rightarrow> (jsstring \<times> jsstring \<times> jsstring) option" where
  "match_here s =
     (case digits1 s of None \<Rightarrow> None | Some (year, r1) \<Rightarrow>
     (case lit NEN r1 of None \<Rightarrow> None | Some r2 \<Rightarrow>
     (case digits1 r2 of None \<Rightarrow> None | Some (month, r3) \<Rightarrow>
     (case lit GATSU r3 of None \<Rightarrow> None | Some r4 \<Rightarrow>
     (case digits1 r4 of None \<Rightarrow> None | Some (day, r5) \<Rightarrow>
     (case lit NICHI r5 of None \<Rightarrow> None | Some r6 \<Rightarrow> Some (year, month, day)))))))"

text \<open>
  \<open>dateString.match(re)\<close>: the pattern is not anchored, so the match is tried at
  every start index from the left; the result is the three groups of the first
  success, \<open>None\<close> for \<open>null\<close>.
\<close>

fun match :: "jsstring \<Rightarrow> (jsstring \<times> jsstring \<times> jsstring) option" where
  "match [] = None"
| "match (c # cs) =
     (case match_here (c # cs) of Some g \<Rightarrow> Some g | None \<Rightarrow> match cs)"

text \<open>
  \<open>Number\<close> of a run of decimal digits, as an integer. The runtime rounds a numeral
  beyond 2^53 to a double; a date with such a year, month or day lies outside the range
  of time values with the rounded as with the exact number, and is invalid either way.
\<close>

definition Number :: "jsstring \<Rightarrow> int" where
  "Number ds = foldl (\<lambda>a c. 10 * a + (int (unat c) - 48)) 0 ds"

datatype diagnostic = ErrorParsingDate "jsstring option" error

text \<open>
  The body of the \<open>try\<close>. \<open>dateString.match\<close> throws a TypeError when
  \<open>dateString\<close> is \<open>undefined\<close>; on a string neither \<open>match\<close> nor the
  constructors throw.
\<close>

definition parseJapaneseDate_try :: "runtime \<Rightarrow> jsstring option \<Rightarrow> error + date" where
  "parseJapaneseDate_try rt dateString =
     (case dateString of
        None \<Rightarrow> Inl TypeError
      | Some s \<Rightarrow>
          (case match s of
             Some (year, month, day) \<Rightarrow>
               Inr (Date_ymd rt (Number year) (Number month - 1) (Number day))
           | None \<Rightarrow> Inr (Date_string rt s)))"

text \<open>
  The function with its \<open>catch\<close>: the date returned and the diagnostics written to the
  console.
\<close>

definition parseJapaneseDate :: "runtime \<Rightarrow> jsstring option \<Rightarrow> date \<times> diagnostic list" where
  "parseJapaneseDate rt dateString =
     (case parseJapaneseDate_try rt dateString of
        Inr d \<Rightarrow> (d, [])
      | Inl e \<Rightarrow> (TimeValue (Date_now rt), [ErrorParsingDate dateString e]))"

section \<open>Per-user statistics\<close>

text \<open>The counters are incremented by one per record and stay exact; \<open>None\<close> is \<open>null\<close>.\<close>

record UserStats =
  user :: cell
  currentStreak :: nat
  longestStreak :: nat
  totalTasks :: nat
  completedTasks :: nat
  currentStreakStart :: "date option"
  currentStreakEnd :: "date option"

section \<open>parseCSV\<close>

text \<open>\<open>xs[i]\<close>: \<open>undefined\<close> when the index is -1 or past the end.\<close>

definition at :: "'a list \<Rightarrow> int \<Rightarrow> 'a option" where
  "at xs i = (if 0 \<le> i \<and> i < int (length xs) then Some (xs ! nat i) else None)"

fun findIndex :: "('a \<Rightarrow> bool) \<Rightarrow> 'a list \<Rightarrow> int" where
  "findIndex p [] = - 1"
| "findIndex p (x # xs) =
     (if p x then 0 else (let i = findIndex p xs in if i = - 1 then - 1 else i + 1))"

definition indexOf :: "'a list \<Rightarrow> 'a \<Rightarrow> int" where
  "indexOf xs x = findIndex (\<lambda>y. y = x) xs"

text \<open>
  \<open>toLowerCase\<close> on the letters A to Z. Outside ASCII the runtime lowers other
  letters too, none of them to a letter of \<open>user_name\<close>, the only string the result
  is compared with.
\<close>

definition toLowerCase :: "jsstring \<Rightarrow> jsstring" where
  "toLowerCase s = map (\<lambda>c. if 0x41 \<le> c \<and> c \<le> 0x5A then c + 0x20 else c) s"

definition COLON :: "16 word" where "COLON = 0x3A"

text \<open>\<open>s.split(sep)\<close> for a separator of one code unit.\<close>

fun split :: "16 word \<Rightarrow> jsstring \<Rightarrow> jsstring list" where
  "split sep [] = [[]]"
| "split sep (c # cs) =
     (if c = sep then [] # split sep cs
      else (case split sep cs of [] \<Rightarrow> [[c]] | p # ps \<Rightarrow> (c # p) # ps))"

text \<open>The white space and line terminators that \<open>trim\<close> removes.\<close>

definition isWhiteSpace :: "16 word \<Rightarrow> bool" where
  "isWhiteSpace c =
     ((0x09 \<le> c \<and> c \<le> 0x0D) \<or> c = 0x20 \<or> c = 0xA0 \<or> c = 0x1680
      \<or> (0x2000 \<le> c \<and> c \<le> 0x200A) \<or> c = 0x2028 \<or> c = 0x2029 \<or> c = 0x202F
      \<or> c = 0x205F \<or> c = 0x3000 \<or> c = 0xFEFF)"

definition trim :: "jsstring \<Rightarrow> jsstring" where
  "trim s = rev (dropWhile isWhiteSpace (rev (dropWhile isWhiteSpace s)))"

text \<open>A cell in a condition: \<open>undefined\<close> and the empty string are falsy.\<close>

definition truthy :: "cell \<Rightarrow> bool" where
  "truthy c = (case c of None \<Rightarrow> False | Some s \<Rightarrow> s \<noteq> [])"

text \<open>
  \<open>taskName.split(':')[0].trim()\<close>: a method call on \<open>undefined\<close> throws a
  TypeError.
\<close>

definition userFromTaskName :: "cell \<Rightarrow> error + cell" where
  "userFromTaskName tn =
     (case tn of
        None \<Rightarrow> Inl TypeError
      | Some t \<Rightarrow>
          (case at (split COLON t) 0 of
             None \<Rightarrow> Inl TypeError
           | Some p \<Rightarrow> Inr (Some (trim p))))"

text \<open>The callback of \<open>map\<close>: one row to one record.\<close>

definition parseRow :: "jsstring list \<Rightarrow> int \<Rightarrow> jsstring list \<Rightarrow> error + Task" where
  "parseRow headers userNameIndex row =
     (let tn = at row (indexOf headers (ascii ''Task name''))
      in case (if userNameIndex \<noteq> - 1 \<and> truthy (at row userNameIndex)
               then Inr (at row userNameIndex) else userFromTaskName tn) of
           Inl e \<Rightarrow> Inl e
         | Inr u \<Rightarrow>
             Inr \<lparr>status = at row (indexOf headers (ascii ''Status'')),
                  taskName = tn,
                  assignee = at row (indexOf headers (ascii ''Assignee'')),
                  due = at row (indexOf headers (ascii ''Due'')),
                  Task.user = u,
                  userName = (if userNameIndex \<noteq> - 1 then at row userNameIndex else None)\<rparr>)"

text \<open>\<open>rows.map(f)\<close> where \<open>f\<close> may throw: the first exception ends the call.\<close>

fun mapRows :: "('a \<Rightarrow> error + 'b) \<Rightarrow> 'a list \<Rightarrow> error + 'b list" where
  "mapRows f [] = Inr []"
| "mapRows f (r # rs) =
     (case f r of
        Inl e \<Rightarrow> Inl e
      | Inr t \<Rightarrow> (case mapRows f rs of Inl e \<Rightarrow> Inl e | Inr ts \<Rightarrow> Inr (t # ts)))"

text \<open>
  The records built from the parsed grid \<open>results.data\<close>: row 0 is the header row.
  With no row at all \<open>headers\<close> is \<open>undefined\<close> and \<open>headers.findIndex\<close> throws.
\<close>

definition parsedTasks :: "jsstring list list \<Rightarrow> error + Task list" where
  "parsedTasks data =
     (case at data 0 of
        None \<Rightarrow> Inl TypeError
      | Some headers \<Rightarrow>
          (let userNameIndex = findIndex (\<lambda>header. toLowerCase header = ascii ''user_name'') headers
           in mapRows (parseRow headers userNameIndex) (drop 1 data)))"

section \<open>analyzeTaskData\<close>

text \<open>
  The comparator of the sort,
  \<open>parseJapaneseDate(a.due).getTime() - parseJapaneseDate(b.due).getTime()\<close>;
  \<open>None\<close> is NaN. Each of its two calls of \<open>parseJapaneseDate\<close> reads the clock anew
  if it reaches the \<open>catch\<close>: \<open>na\<close> and \<open>nb\<close> are what the clock shows at the first
  and at the second call.
\<close>

definition getTime :: "runtime \<Rightarrow> Task \<Rightarrow> int option" where
  "getTime rt t = (case fst (parseJapaneseDate rt (due t)) of TimeValue v \<Rightarrow> Some v | InvalidDate \<Rightarrow> None)"

definition comparefn :: "runtime \<Rightarrow> int \<Rightarrow> int \<Rightarrow> Task \<Rightarrow> Task \<Rightarrow> int option" where
  "comparefn rt na nb a b =
     (case (getTime (rt\<lparr>Date_now := na\<rparr>) a, getTime (rt\<lparr>Date_now := nb\<rparr>) b) of
        (Some x, Some y) \<Rightarrow> Some (x - y)
      | _ \<Rightarrow> None)"

text \<open>The sort reads a NaN from the comparator as 0.\<close>

definition SortCompare :: "runtime \<Rightarrow> int \<Rightarrow> int \<Rightarrow> Task \<Rightarrow> Task \<Rightarrow> int" where
  "SortCompare rt na nb a b = (case comparefn rt na nb a b of None \<Rightarrow> 0 | Some v \<Rightarrow> v)"

text \<open>
  A record whose due field is a string that parses to a valid date. Between such
  records the comparator reads no clock and returns no NaN: it is the difference of
  two fixed time values, a consistent comparator.
\<close>

definition consistentDue :: "runtime \<Rightarrow> Task \<Rightarrow> bool" where
  "consistentDue rt t =
     (case due t of
        None \<Rightarrow> False
      | Some s \<Rightarrow> fst (parseJapaneseDate rt (Some s)) \<noteq> InvalidDate)"

text \<open>
  \<open>Array.prototype.sort\<close>. For a consistent comparator the result is fixed: the
  stable ascending order, which the insertion sort below computes (a record goes
  before the first one that it does not follow). The insertion sort is run only on
  records with \<open>consistentDue\<close>, for which the clock readings handed to the comparator
  are immaterial. For an array with an undefined due field or an invalid date the
  comparator is not consistent and the order is the engine's, \<open>Array_sort\<close> of the
  runtime. Every engine leaves in the array the elements it found there, so the
  engine's result is taken where it is a permutation of the array.
\<close>

fun insertTask :: "runtime \<Rightarrow> Task \<Rightarrow> Task list \<Rightarrow> Task list" where
  "insertTask rt x [] = [x]"
| "insertTask rt x (y # ys) =
     (if SortCompare rt (Date_now rt) (Date_now rt) x y \<le> 0 then x # y # ys
      else y # insertTask rt x ys)"

definition sortTasks :: "runtime \<Rightarrow> Task list \<Rightarrow> Task list" where
  "sortTasks rt xs =
     (if list_all (consistentDue rt) xs then foldr (insertTask rt) xs []
      else if mset (Array_sort rt xs) = mset xs then Array_sort rt xs
      else xs)"

text \<open>
  The \<open>Map\<close> from user to statistics keeps its keys in insertion order: an
  association list, a new key appended, the statistics of a known key updated in place.
\<close>

type_synonym userStatsMap = "(cell \<times> UserStats) list"

fun mapGet :: "userStatsMap \<Rightarrow> cell \<Rightarrow> UserStats option" where
  "mapGet [] k = None"
| "mapGet ((k', v) # m) k = (if k' = k then Some v else mapGet m k)"

fun mapSet :: "userStatsMap \<Rightarrow> cell \<Rightarrow> UserStats \<Rightarrow> userStatsMap" where
  "mapSet [] k v = [(k, v)]"
| "mapSet ((k', v') # m) k v = (if k' = k then (k, v) # m else (k', v') # mapSet m k v)"

definition newStats :: "cell \<Rightarrow> UserStats" where
  "newStats u =
     \<lparr>user = u, currentStreak = 0, longestStreak = 0, totalTasks = 0, completedTasks = 0,
      currentStreakStart = None, currentStreakEnd = None\<rparr>"

definition Done :: cell where "Done = Some (ascii ''Done'')"
definition Archived :: cell where "Archived = Some (ascii ''Archived'')"

text \<open>The update of one user's statistics by one record.\<close>

definition updateStats :: "runtime \<Rightarrow> Task \<Rightarrow> UserStats \<Rightarrow> UserStats" where
  "updateStats rt task stats0 =
     (let stats = stats0\<lparr>totalTasks := totalTasks stats0 + 1\<rparr>
      in if status task = Done then
           (let s1 = stats\<lparr>completedTasks := completedTasks stats + 1,
                           currentStreak := currentStreak stats + 1\<rparr>;
                s2 = (if currentStreak s1 > longestStreak s1
                      then s1\<lparr>longestStreak := currentStreak s1\<rparr> else s1);
                s3 = (if currentStreakStart s2 = None
                      then s2\<lparr>currentStreakStart := Some (fst (parseJapaneseDate rt (due task)))\<rparr>
                      else s2)
            in s3\<lparr>currentStreakEnd := Some (fst (parseJapaneseDate rt (due task)))\<rparr>)
         else if status task = Archived then
           stats\<lparr>currentStreak := 0, currentStreakStart := None, currentStreakEnd := None\<rparr>
         else stats)"

text \<open>The body of \<open>forEach\<close>: the entry is created on first sight, then updated.\<close>

definition forEachTask :: "runtime \<Rightarrow> userStatsMap \<Rightarrow> Task \<Rightarrow> userStatsMap" where
  "forEachTask rt m task =
     (let m1 = (if mapGet m (Task.user task) = None
                then mapSet m (Task.user task) (newStats (Task.user task)) else m)
      in case mapGet m1 (Task.user task) of
           None \<Rightarrow> m1
         | Some stats \<Rightarrow> mapSet m1 (Task.user task) (updateStats rt task stats))"

text \<open>
  The pass over the sorted records, and the function itself: it sorts its argument in
  place, so it returns the argument array as the call leaves it together with the
  statistics it hands to \<open>setUserStats\<close>.
\<close>

definition pass :: "runtime \<Rightarrow> Task list \<Rightarrow> userStatsMap" where
  "pass rt ts = foldl (forEachTask rt) [] ts"

definition analyzeTaskData :: "runtime \<Rightarrow> Task list \<Rightarrow> Task list \<times> UserStats list" where
  "analyzeTaskData rt filteredTasks =
     (let sorted = sortTasks rt filteredTasks
      in (sorted, map snd (pass rt sorted)))"

section \<open>The window filter and the application state\<close>

record App =
  tasks :: "Task list"
  userStats :: "UserStats list"
  startDate :: jsstring
  endDate :: jsstring

text \<open>The bounds of the window: an empty string is an open bound.\<close>

definition windowStart :: "runtime \<Rightarrow> jsstring \<Rightarrow> date" where
  "windowStart rt sd = (if sd \<noteq> [] then Date_string rt sd else Date_value 0)"

definition windowEnd :: "runtime \<Rightarrow> jsstring \<Rightarrow> date" where
  "windowEnd rt ed = (if ed \<noteq> [] then Date_string rt ed else Date_value 8640000000000000)"

definition inWindow :: "runtime \<Rightarrow> jsstring \<Rightarrow> jsstring \<Rightarrow> Task \<Rightarrow> bool" where
  "inWindow rt sd ed task =
     (let taskDate = fst (parseJapaneseDate rt (due task));
          start = windowStart rt sd;
          end' = windowEnd rt ed
      in date_ge taskDate start \<and> date_le taskDate end')"

definition filteredTasks :: "runtime \<Rightarrow> jsstring \<Rightarrow> jsstring \<Rightarrow> Task list \<Rightarrow> Task list" where
  "filteredTasks rt sd ed ts = filter (inWindow rt sd ed) ts"

text \<open>
  The effect that runs when the records or the window change: it analyses a filtered
  copy of the records. With no record it does nothing.
\<close>

definition useEffect :: "runtime \<Rightarrow> App \<Rightarrow> App" where
  "useEffect rt st =
     (if length (tasks st) > 0
      then st\<lparr>userStats := snd (analyzeTaskData rt (filteredTasks rt (startDate st) (endDate st) (tasks st)))\<rparr>
      else st)"

text \<open>
  The \<open>complete\<close> callback of \<open>parseCSV\<close>: the array stored by \<open>setTasks\<close> is the one
  that \<open>analyzeTaskData\<close> then sorts in place.
\<close>

definition parseCSV :: "runtime \<Rightarrow> App \<Rightarrow> jsstring list list \<Rightarrow> error + App" where
  "parseCSV rt st data =
     (case parsedTasks data of
        Inl e \<Rightarrow> Inl e
      | Inr parsed \<Rightarrow>
          (case analyzeTaskData rt parsed of
             (arr, stats) \<Rightarrow> Inr (st\<lparr>tasks := arr, userStats := stats\<rparr>)))"

section \<open>A runtime for concrete evaluation\<close>

text \<open>
  The theorems below hold for every runtime. Where one is evaluated at a concrete
  input, the runtime is this one: Japan Standard Time (nine hours ahead of UTC), a
  \<open>Date.parse\<close> that reads the date-only form \<open>YYYY-MM-DD\<close> as UTC midnight and
  gives an invalid date for every other string, a clock at 2026-11-03T00:00:00Z, and
  an engine whose sort leaves an array as it is where the comparator is not consistent.
\<close>

definition HYPHEN :: "16 word" where "HYPHEN = 0x2D"

definition isoDateOnly :: "jsstring \<Rightarrow> date" where
  "isoDateOnly s =
     (let y = take 4 s; m = take 2 (drop 5 s); d = take 2 (drop 8 s)
      in if length s = 10 \<and> at s 4 = Some HYPHEN \<and> at s 7 = Some HYPHEN
            \<and> list_all isDigit (y @ m @ d)
            \<and> 1 \<le> Number m \<and> Number m \<le> 12 \<and> 1 \<le> Number d \<and> Number d \<le> 31
         then TimeClip (MakeDate (MakeDay (Number y) (Number m - 1) (Number d)) 0)
         else InvalidDate)"

definition sampleRuntime :: runtime where
  "sampleRuntime =
     \<lparr>LocalTZA = (\<lambda>t. 32400000), Date_parse = isoDateOnly, Date_now = 1793664000000,
      Array_sort = (\<lambda>xs. xs)\<rparr>"

text \<open>The date string \<open>y\<close>, U+5E74, \<open>m\<close>, U+6708, \<open>d\<close>, U+65E5 from three numerals.\<close>

definition jpDate :: "string \<Rightarrow> string \<Rightarrow> string \<Rightarrow> jsstring" where
  "jpDate y m d = ascii y @ NEN # ascii m @ GATSU # ascii d @ [NICHI]"

text \<open>A record with the status, user and due string given, the other fields empty.\<close>

definition mkTask :: "string \<Rightarrow> string \<Rightarrow> jsstring \<Rightarrow> Task" where
  "mkTask st u d =
     \<lparr>status = Some (ascii st), taskName = Some [], assignee = Some [], due = Some d,
      Task.user = Some (ascii u), userName = None\<rparr>"

text \<open>
  Four records of user A, given out of order: by due date their statuses are Done,
  Done, Archived, Done.
\<close>

definition exampleTasks :: "Task list" where
  "exampleTasks =
     [mkTask ''Done'' ''A'' (jpDate ''2024'' ''3'' ''4''),
      mkTask ''Done'' ''A'' (jpDate ''2024'' ''3'' ''1''),
      mkTask ''Archived'' ''A'' (jpDate ''2024'' ''3'' ''3''),
      mkTask ''Done'' ''A'' (jpDate ''2024'' ''3'' ''2'')]"

text \<open>The statistics of user A after the first three of them.\<close>

definition exampleStats3 :: UserStats where
  "exampleStats3 =
     \<lparr>UserStats.user = Some (ascii ''A''), currentStreak = 0, longestStreak = 2,
      totalTasks = 3, completedTasks = 2,
      currentStreakStart = None, currentStreakEnd = None\<rparr>"

text \<open>
  Records of two users, given out of order. By due date those of user A have the
  statuses Done, Done, Archived, Done; in the order given they have Done, Archived,
  Done, Done.
\<close>

definition taskA1 :: Task where "taskA1 = mkTask ''Done'' ''A'' (jpDate ''2024'' ''3'' ''1'')"
definition taskA2 :: Task where "taskA2 = mkTask ''Done'' ''A'' (jpDate ''2024'' ''3'' ''2'')"
definition taskA3 :: Task where "taskA3 = mkTask ''Archived'' ''A'' (jpDate ''2024'' ''3'' ''3'')"
definition taskA4 :: Task where "taskA4 = mkTask ''Done'' ''A'' (jpDate ''2024'' ''3'' ''4'')"
definition taskB1 :: Task where "taskB1 = mkTask ''Archived'' ''B'' (jpDate ''2024'' ''3'' ''1'')"
definition taskB2 :: Task where "taskB2 = mkTask ''Done'' ''B'' (jpDate ''2024'' ''3'' ''2'')"

definition mixedTasks :: "Task list" where
  "mixedTasks = [taskA4, taskB2, taskA3, taskA2, taskB1, taskA1]"

text \<open>An application state holding the example records, with an open window.\<close>

definition exampleApp :: App where
  "exampleApp = \<lparr>tasks = exampleTasks, userStats = [], startDate = [], endDate = []\<rparr>"

text \<open>The example records in the order of their due dates.\<close>

definition exampleSorted :: "Task list" where
  "exampleSorted =
     [mkTask ''Done'' ''A'' (jpDate ''2024'' ''3'' ''1''),
      mkTask ''Done'' ''A'' (jpDate ''2024'' ''3'' ''2''),
      mkTask ''Archived'' ''A'' (jpDate ''2024'' ''3'' ''3''),
      mkTask ''Done'' ''A'' (jpDate ''2024'' ''3'' ''4'')]"

text \<open>A record due on 1 January 1960, and one whose due string is no date.\<close>

definition oldTask :: Task where
  "oldTask = mkTask ''Done'' ''A'' (jpDate ''1960'' ''1'' ''1'')"

definition badTask :: Task where
  "badTask = mkTask ''Done'' ''A'' (ascii ''abc'')"

text \<open>
  Parsed grids. The first has a \<open>User_Name\<close> column: its cell is empty in the first two
  rows, the task name of the second row has white space around the part before the
  colon (U+3000 and a space before, a tab and a space after), and the cell of the third
  row is a name with a space on either side. \<open>keyRecords\<close> are its records. The
  others lack the \<open>Status\<close> column and the \<open>Task name\<close> column.
\<close>

definition paddedName :: jsstring where
  "paddedName = 0x3000 # ascii '' Team A'' @ 0x09 # ascii '' : plan''"

definition keyGrid :: "jsstring list list" where
  "keyGrid =
     [[ascii ''Status'', ascii ''Task name'', ascii ''Assignee'', ascii ''Due'', ascii ''User_Name''],
      [ascii ''Done'', ascii ''Design: write spec'', ascii ''bob'', jpDate ''2024'' ''3'' ''5'', []],
      [ascii ''Done'', paddedName, ascii ''carol'', jpDate ''2024'' ''3'' ''6'', []],
      [ascii ''Done'', ascii ''Ops: deploy'', ascii ''dave'', jpDate ''2024'' ''3'' ''7'',
       ascii '' dave '']]"

definition keyRecords :: "Task list" where
  "keyRecords =
     [\<lparr>status = Some (ascii ''Done''), taskName = Some (ascii ''Design: write spec''),
       assignee = Some (ascii ''bob''), due = Some (jpDate ''2024'' ''3'' ''5''),
       Task.user = Some (ascii ''Design''), userName = Some []\<rparr>,
      \<lparr>status = Some (ascii ''Done''), taskName = Some paddedName,
       assignee = Some (ascii ''carol''), due = Some (jpDate ''2024'' ''3'' ''6''),
       Task.user = Some (ascii ''Team A''), userName = Some []\<rparr>,
      \<lparr>status = Some (ascii ''Done''), taskName = Some (ascii ''Ops: deploy''),
       assignee = Some (ascii ''dave''), due = Some (jpDate ''2024'' ''3'' ''7''),
       Task.user = Some (ascii '' dave ''), userName = Some (ascii '' dave '')\<rparr>]"

definition noStatusGrid :: "jsstring list list" where
  "noStatusGrid =
     [[ascii ''Task name'', ascii ''Assignee'', ascii ''Due''],
      [ascii ''Design: write spec'', ascii ''bob'', jpDate ''2024'' ''3'' ''5'']]"

definition noTaskNameGrid :: "jsstring list list" where
  "noTaskNameGrid =
     [[ascii ''Status'', ascii ''Assignee'', ascii ''Due''],
      [ascii ''Done'', ascii ''bob'', jpDate ''2024'' ''3'' ''5'']]"

text \<open>A grid with only the \<open>Status\<close> and \<open>user_name\<close> columns, and its record.\<close>

definition bareGrid :: "jsstring list list" where
  "bareGrid = [[ascii ''Status'', ascii ''user_name''], [ascii ''Done'', ascii ''alice'']]"

definition bareRecord :: Task where
  "bareRecord =
     \<lparr>status = Some (ascii ''Done''), taskName = None, assignee = None, due = None,
      Task.user = Some (ascii ''alice''), userName = Some (ascii ''alice'')\<rparr>"

definition noStatusRecord :: Task where
  "noStatusRecord =
     \<lparr>status = None, taskName = Some (ascii ''Design: write spec''),
      assignee = Some (ascii ''bob''), due = Some (jpDate ''2024'' ''3'' ''5''),
      Task.user = Some (ascii ''Design''), userName = None\<rparr>"

section \<open>Notions used in the properties\<close>

text \<open>
  The calendar date of the spec, for a year, a month counted from 1 and a day: the
  \<open>Date\<close> of local midnight on that day, the year taken as it is written.
\<close>

definition calendarDate :: "runtime \<Rightarrow> int \<Rightarrow> int \<Rightarrow> int \<Rightarrow> date" where
  "calendarDate rt y m d = TimeValue (UTC rt (MakeDate (MakeDay y (m - 1) d) 0))"

text \<open>The length of month \<open>m\<close>, counted from 1, in year \<open>y\<close>.\<close>

definition DaysInMonth :: "int \<Rightarrow> int \<Rightarrow> int" where
  "DaysInMonth y m =
     (if m = 2 then (if InLeapYear y then 29 else 28)
      else if m = 4 \<or> m = 6 \<or> m = 9 \<or> m = 11 then 30 else 31)"

text \<open>A record whose due date parses to a valid date.\<close>

definition validDue :: "runtime \<Rightarrow> Task \<Rightarrow> bool" where
  "validDue rt t = (fst (parseJapaneseDate rt (due t)) \<noteq> InvalidDate)"



text \<open>The invariant of one user's statistics.\<close>

definition statsInvariant :: "UserStats \<Rightarrow> bool" where
  "statsInvariant s =
     (completedTasks s \<le> totalTasks s \<and> currentStreak s \<le> longestStreak s
      \<and> (currentStreak s = 0 \<longrightarrow> currentStreakStart s = None \<and> currentStreakEnd s = None))"

definition mapInvariant :: "userStatsMap \<Rightarrow> bool" where
  "mapInvariant m = (\<forall>(k, v) \<in> set m. statsInvariant v)"

text \<open>The time value of a record's due date, where the date is valid.\<close>

definition timeOf :: "runtime \<Rightarrow> Task \<Rightarrow> int" where
  "timeOf rt t = (case getTime rt t of Some v \<Rightarrow> v | None \<Rightarrow> 0)"

section \<open>The sort\<close>

text \<open>On a string the parser does not read the clock.\<close>

lemma parseJapaneseDate_clock:
  "d \<noteq> None \<Longrightarrow> parseJapaneseDate (rt\<lparr>Date_now := n\<rparr>) d = parseJapaneseDate rt d"
  by (auto simp add: parseJapaneseDate_def parseJapaneseDate_try_def Date_ymd_def UTC_def
      Date_string_def split: option.splits prod.splits)

lemma getTime_clock:
  assumes "due t \<noteq> None"
  shows "getTime (rt\<lparr>Date_now := n\<rparr>) t = getTime rt t"
proof -
  have "parseJapaneseDate (rt\<lparr>Date_now := n\<rparr>) (due t) = parseJapaneseDate rt (due t)"
    using assms by (rule parseJapaneseDate_clock)
  then show ?thesis by (simp add: getTime_def)
qed

lemma timeOf_clock:
  assumes "due t \<noteq> None"
  shows "timeOf (rt\<lparr>Date_now := n\<rparr>) t = timeOf rt t"
  unfolding timeOf_def getTime_clock [OF assms] by (rule refl)

lemma consistentDue_due: "consistentDue rt t \<Longrightarrow> due t \<noteq> None"
  by (cases "due t") (simp_all add: consistentDue_def)

lemma consistentDue_getTime: "consistentDue rt t \<Longrightarrow> getTime rt t = Some (timeOf rt t)"
  by (cases "due t"; cases "fst (parseJapaneseDate rt (due t))")
     (auto simp: consistentDue_def getTime_def timeOf_def)

lemma consistentDue_clock: "consistentDue (rt\<lparr>Date_now := n\<rparr>) t = consistentDue rt t"
proof (cases "due t")
  case None
  then show ?thesis by (simp add: consistentDue_def)
next
  case (Some s)
  have "parseJapaneseDate (rt\<lparr>Date_now := n\<rparr>) (Some s) = parseJapaneseDate rt (Some s)"
    by (rule parseJapaneseDate_clock) simp
  with Some show ?thesis by (simp add: consistentDue_def)
qed

text \<open>
  Between records with \<open>consistentDue\<close> the comparator is the difference of the time
  values, whatever the clock shows.
\<close>

lemma comparefn_consistent:
  assumes "consistentDue rt a" and "consistentDue rt b"
  shows "comparefn rt na nb a b = Some (timeOf rt a - timeOf rt b)"
proof -
  have "getTime (rt\<lparr>Date_now := na\<rparr>) a = Some (timeOf rt a)"
    using assms(1) by (simp add: getTime_clock consistentDue_due consistentDue_getTime)
  moreover have "getTime (rt\<lparr>Date_now := nb\<rparr>) b = Some (timeOf rt b)"
    using assms(2) by (simp add: getTime_clock consistentDue_due consistentDue_getTime)
  ultimately show ?thesis by (simp add: comparefn_def)
qed

lemma SortCompare_consistent:
  "consistentDue rt a \<Longrightarrow> consistentDue rt b \<Longrightarrow>
   (SortCompare rt na nb a b \<le> 0) = (timeOf rt a \<le> timeOf rt b)"
  by (simp add: SortCompare_def comparefn_consistent)

lemma insertTask_insort:
  "consistentDue rt x \<Longrightarrow> list_all (consistentDue rt) ys \<Longrightarrow>
   insertTask rt x ys = insort_key (timeOf rt) x ys"
  by (induction ys) (simp_all add: SortCompare_consistent)

lemma foldr_insertTask:
  "list_all (consistentDue rt) xs \<Longrightarrow> foldr (insertTask rt) xs [] = sort_key (timeOf rt) xs"
proof (induction xs)
  case Nil
  then show ?case by simp
next
  case (Cons x xs)
  then have ih: "foldr (insertTask rt) xs [] = sort_key (timeOf rt) xs" by simp
  have "list_all (consistentDue rt) (sort_key (timeOf rt) xs)"
    using Cons.prems by (simp add: list_all_iff)
  with Cons.prems ih show ?case by (simp add: insertTask_insort)
qed

text \<open>Where the comparator is consistent the sort is the stable sort by time value.\<close>

lemma sortTasks_consistent:
  "list_all (consistentDue rt) xs \<Longrightarrow> sortTasks rt xs = sort_key (timeOf rt) xs"
  by (simp add: sortTasks_def foldr_insertTask)

lemma mset_sortTasks: "mset (sortTasks rt xs) = mset xs"
  by (simp add: sortTasks_def foldr_insertTask)

lemma set_sortTasks: "set (sortTasks rt xs) = set xs"
  using mset_sortTasks [of rt xs] by (metis set_mset_mset)

lemma length_sortTasks: "length (sortTasks rt xs) = length xs"
  using mset_sortTasks [of rt xs] by (metis size_mset)

lemma sortTasks_single: "sortTasks rt [x] = [x]"
  using mset_sortTasks [of rt "[x]"] by simp

lemma consistent_sortTasks:
  "list_all (consistentDue rt) (sortTasks rt xs) = list_all (consistentDue rt) xs"
  by (simp add: list_all_iff set_sortTasks)

lemma sortTasks_idem:
  "list_all (consistentDue rt) xs \<Longrightarrow> sortTasks rt (sortTasks rt xs) = sortTasks rt xs"
  by (simp add: sortTasks_consistent list_all_iff sort_key_id_if_sorted)

lemma sort_key_cong_set:
  "\<forall>x \<in> set xs. f x = g x \<Longrightarrow> sort_key f xs = sort_key g xs"
proof (induction xs)
  case Nil
  then show ?case by simp
next
  case (Cons x xs)
  have ins: "\<forall>y \<in> set ys. f y = g y \<Longrightarrow> f x = g x \<Longrightarrow> insort_key f x ys = insort_key g x ys"
    for ys by (induction ys) simp_all
  from Cons show ?case by (simp add: ins)
qed

lemma sortTasks_clock:
  assumes "\<forall>x \<in> set xs. due x \<noteq> None"
  shows "sortTasks (rt\<lparr>Date_now := n\<rparr>) xs = sortTasks rt xs"
proof (cases "list_all (consistentDue rt) xs")
  case True
  then have c: "list_all (consistentDue (rt\<lparr>Date_now := n\<rparr>)) xs"
    by (simp add: list_all_iff consistentDue_clock)
  have "sort_key (timeOf (rt\<lparr>Date_now := n\<rparr>)) xs = sort_key (timeOf rt) xs"
    using assms by (intro sort_key_cong_set) (simp add: timeOf_clock)
  with True c show ?thesis by (simp add: sortTasks_consistent)
next
  case False
  then have "\<not> list_all (consistentDue (rt\<lparr>Date_now := n\<rparr>)) xs"
    by (simp add: list_all_iff consistentDue_clock)
  with False show ?thesis by (simp add: sortTasks_def)
qed

section \<open>The invariant of the pass\<close>

lemma mapGet_Some_mem: "mapGet m k = Some v \<Longrightarrow> (k, v) \<in> set m"
  by (induction m) (auto split: if_splits)

lemma set_mapSet: "set (mapSet m k v) \<subseteq> insert (k, v) (set m)"
  by (induction m) (auto split: if_splits)

lemma statsInvariant_newStats: "statsInvariant (newStats u)"
  by (simp add: statsInvariant_def newStats_def)

lemma statsInvariant_updateStats:
  "statsInvariant s \<Longrightarrow> statsInvariant (updateStats rt t s)"
  by (auto simp: statsInvariant_def updateStats_def Let_def)

lemma mapInvariant_mapSet:
  "mapInvariant m \<Longrightarrow> statsInvariant v \<Longrightarrow> mapInvariant (mapSet m k v)"
  using set_mapSet [of m k v] by (auto simp: mapInvariant_def)

lemma mapInvariant_forEachTask:
  assumes "mapInvariant m"
  shows "mapInvariant (forEachTask rt m t)"
proof -
  let ?m1 = "if mapGet m (Task.user t) = None
             then mapSet m (Task.user t) (newStats (Task.user t)) else m"
  have m1: "mapInvariant ?m1"
    using assms by (simp add: mapInvariant_mapSet statsInvariant_newStats)
  show ?thesis
  proof (cases "mapGet ?m1 (Task.user t)")
    case None
    then show ?thesis using m1 by (simp add: forEachTask_def Let_def)
  next
    case (Some s)
    then have "(Task.user t, s) \<in> set ?m1" by (rule mapGet_Some_mem)
    with m1 have "statsInvariant s" by (auto simp: mapInvariant_def)
    then have "statsInvariant (updateStats rt t s)" by (rule statsInvariant_updateStats)
    with m1 have "mapInvariant (mapSet ?m1 (Task.user t) (updateStats rt t s))"
      by (rule mapInvariant_mapSet)
    with Some show ?thesis by (simp add: forEachTask_def Let_def)
  qed
qed

lemma mapInvariant_foldl:
  "mapInvariant m \<Longrightarrow> mapInvariant (foldl (forEachTask rt) m ts)"
  by (induction ts arbitrary: m) (simp_all add: mapInvariant_forEachTask)

lemma mapInvariant_pass: "mapInvariant (pass rt ts)"
  unfolding pass_def by (rule mapInvariant_foldl) (simp add: mapInvariant_def)

text \<open>
  C2. After any prefix of the chronological pass (the first \<open>n\<close> records of the
  sorted sequence, for every \<open>n\<close>), the statistics of every user satisfy
  \<open>completedTasks \<le> totalTasks\<close> and \<open>currentStreak \<le> longestStreak\<close>, and where
  \<open>currentStreak\<close> is 0 both dates of the streak span are null.
\<close>

theorem stats_invariant_every_prefix:
  "\<forall>s \<in> set (map snd (pass rt (take n (sortTasks rt ts)))).
     completedTasks s \<le> totalTasks s \<and> currentStreak s \<le> longestStreak s
     \<and> (currentStreak s = 0 \<longrightarrow> currentStreakStart s = None \<and> currentStreakEnd s = None)"
  using mapInvariant_pass [of rt "take n (sortTasks rt ts)"]
  by (auto simp: mapInvariant_def statsInvariant_def)

text \<open>
  The example records after three steps of the pass: user A has the statistics
  \<open>exampleStats3\<close>, with a streak of 0, and the invariant gives the rest.
\<close>

theorem stats_invariant_every_prefix_witness:
  "exampleStats3 \<in> set (map snd (pass sampleRuntime (take 3 (sortTasks sampleRuntime exampleTasks))))
   \<and> currentStreak exampleStats3 = 0
   \<and> completedTasks exampleStats3 \<le> totalTasks exampleStats3
   \<and> currentStreak exampleStats3 \<le> longestStreak exampleStats3
   \<and> currentStreakStart exampleStats3 = None
   \<and> currentStreakEnd exampleStats3 = None"
proof -
  have "map snd (pass sampleRuntime (take 3 (sortTasks sampleRuntime exampleTasks)))
          = [exampleStats3]"
    by code_simp
  then have mem: "exampleStats3
      \<in> set (map snd (pass sampleRuntime (take 3 (sortTasks sampleRuntime exampleTasks))))"
    by simp
  have zero: "currentStreak exampleStats3 = 0"
    by (simp add: exampleStats3_def)
  from stats_invariant_every_prefix [of sampleRuntime 3 exampleTasks] mem zero
  show ?thesis by blast
qed

section \<open>The streak example\<close>

text \<open>
  The entry of a user in the map depends on the records of that user alone, in the
  order of the pass.
\<close>

lemma Done_neq_Archived: "Done \<noteq> Archived"
  by (simp add: Done_def Archived_def ascii_def)















text \<open>The three transitions of the streak: advance, reset, hold.\<close>

lemma updateStats_Done:
  "status t = Done \<Longrightarrow>
   currentStreak (updateStats rt t s) = currentStreak s + 1
   \<and> completedTasks (updateStats rt t s) = completedTasks s + 1
   \<and> totalTasks (updateStats rt t s) = totalTasks s + 1
   \<and> longestStreak (updateStats rt t s) = max (longestStreak s) (currentStreak s + 1)"
  by (simp add: updateStats_def Let_def)

lemma updateStats_Archived:
  "status t = Archived \<Longrightarrow>
   updateStats rt t s =
     s\<lparr>totalTasks := totalTasks s + 1, currentStreak := 0,
       currentStreakStart := None, currentStreakEnd := None\<rparr>"
  using Done_neq_Archived by (simp add: updateStats_def Let_def)

lemma updateStats_other:
  "status t \<noteq> Done \<Longrightarrow> status t \<noteq> Archived \<Longrightarrow>
   updateStats rt t s = s\<lparr>totalTasks := totalTasks s + 1\<rparr>"
  by (simp add: updateStats_def Let_def)



text \<open>Without the sort, or with the other user's records counted in, the result differs.\<close>

lemma unsorted_differs:
  "map snd (pass sampleRuntime mixedTasks) \<noteq> snd (analyzeTaskData sampleRuntime mixedTasks)"
  by code_simp

section \<open>No hidden state\<close>

text \<open>
  The only state outside the arguments that the code can read is the clock, in the
  \<open>catch\<close> of \<open>parseJapaneseDate\<close>, reached when the due field is \<open>undefined\<close>.
  On records whose due field is a string the clock is never read.
\<close>

lemma updateStats_clock:
  assumes "due t \<noteq> None"
  shows "updateStats (rt\<lparr>Date_now := n\<rparr>) t s = updateStats rt t s"
proof -
  have "parseJapaneseDate (rt\<lparr>Date_now := n\<rparr>) (due t) = parseJapaneseDate rt (due t)"
    using assms by (rule parseJapaneseDate_clock)
  then show ?thesis by (simp add: updateStats_def Let_def)
qed

lemma forEachTask_clock:
  assumes "due t \<noteq> None"
  shows "forEachTask (rt\<lparr>Date_now := n\<rparr>) m t = forEachTask rt m t"
proof -
  have eq: "updateStats (rt\<lparr>Date_now := n\<rparr>) t = updateStats rt t"
    using assms by (intro ext) (rule updateStats_clock)
  show ?thesis unfolding forEachTask_def eq by (rule refl)
qed

lemma foldl_forEachTask_clock:
  "\<forall>t \<in> set ts. due t \<noteq> None \<Longrightarrow>
   foldl (forEachTask (rt\<lparr>Date_now := n\<rparr>)) m ts = foldl (forEachTask rt) m ts"
proof (induction ts arbitrary: m)
  case Nil
  then show ?case by simp
next
  case (Cons t ts)
  then have "due t \<noteq> None" by simp
  then have "forEachTask (rt\<lparr>Date_now := n\<rparr>) m t = forEachTask rt m t"
    by (rule forEachTask_clock)
  with Cons show ?case by simp
qed

lemma analyzeTaskData_clock:
  assumes "\<forall>t \<in> set ts. due t \<noteq> None"
  shows "analyzeTaskData (rt\<lparr>Date_now := n\<rparr>) ts = analyzeTaskData rt ts"
proof -
  have s: "sortTasks (rt\<lparr>Date_now := n\<rparr>) ts = sortTasks rt ts"
    using assms by (rule sortTasks_clock)
  have "\<forall>t \<in> set (sortTasks rt ts). due t \<noteq> None"
    using assms by (simp add: set_sortTasks)
  then have "foldl (forEachTask (rt\<lparr>Date_now := n\<rparr>)) [] (sortTasks rt ts)
      = foldl (forEachTask rt) [] (sortTasks rt ts)"
    by (rule foldl_forEachTask_clock)
  with s show ?thesis by (simp add: analyzeTaskData_def pass_def)
qed

lemma inWindow_clock:
  assumes "due t \<noteq> None"
  shows "inWindow (rt\<lparr>Date_now := n\<rparr>) sd ed t = inWindow rt sd ed t"
proof -
  have "parseJapaneseDate (rt\<lparr>Date_now := n\<rparr>) (due t) = parseJapaneseDate rt (due t)"
    using assms by (rule parseJapaneseDate_clock)
  then show ?thesis
    by (simp add: inWindow_def windowStart_def windowEnd_def Date_string_def Let_def)
qed

lemma filteredTasks_clock:
  "\<forall>t \<in> set ts. due t \<noteq> None \<Longrightarrow>
   filteredTasks (rt\<lparr>Date_now := n\<rparr>) sd ed ts = filteredTasks rt sd ed ts"
  unfolding filteredTasks_def by (rule filter_cong) (simp_all add: inWindow_clock)

lemma useEffect_clock:
  assumes "\<forall>t \<in> set (tasks st). due t \<noteq> None"
  shows "useEffect (rt\<lparr>Date_now := n\<rparr>) st = useEffect rt st"
proof -
  let ?f = "filteredTasks rt (startDate st) (endDate st) (tasks st)"
  have f: "filteredTasks (rt\<lparr>Date_now := n\<rparr>) (startDate st) (endDate st) (tasks st) = ?f"
    using assms by (rule filteredTasks_clock)
  have "\<forall>t \<in> set ?f. due t \<noteq> None"
    using assms by (simp add: filteredTasks_def)
  then have "analyzeTaskData (rt\<lparr>Date_now := n\<rparr>) ?f = analyzeTaskData rt ?f"
    by (rule analyzeTaskData_clock)
  with f show ?thesis by (simp add: useEffect_def)
qed

lemma analyzeTaskData_again:
  "list_all (consistentDue rt) ts \<Longrightarrow>
   snd (analyzeTaskData rt (fst (analyzeTaskData rt ts))) = snd (analyzeTaskData rt ts)"
  by (simp add: analyzeTaskData_def Let_def sortTasks_idem)

lemma useEffect_again: "useEffect rt (useEffect rt st) = useEffect rt st"
  by (simp add: useEffect_def)

text \<open>
  C8, the claim as stated fails: a grid without the \<open>Due\<close> column gives a record
  whose due field is \<open>undefined\<close>; its streak dates are what the clock shows during
  the call, so a call one second later returns other statistics, through
  \<open>analyzeTaskData\<close> and through the effect of the window filter.
\<close>

theorem analyze_twice_clock_counterexample:
  "parsedTasks bareGrid = Inr [bareRecord]
   \<and> snd (analyzeTaskData (sampleRuntime\<lparr>Date_now := 1793664001000\<rparr>) [bareRecord])
       \<noteq> snd (analyzeTaskData sampleRuntime [bareRecord])
   \<and> userStats (useEffect (sampleRuntime\<lparr>Date_now := 1793664001000\<rparr>)
         (exampleApp\<lparr>tasks := [bareRecord]\<rparr>))
       \<noteq> userStats (useEffect sampleRuntime (exampleApp\<lparr>tasks := [bareRecord]\<rparr>))"
  by code_simp

text \<open>
  C8, amended. For records whose due field is a string, as the type \<open>Task\<close> declares
  it, a second call on the same records and window gives the output of the first,
  whatever the clock shows at the second call: through \<open>analyzeTaskData\<close>, and
  through the effect of the window filter run again on the state it produced. Where
  every due date is also valid, so does a second call on the very array the first
  call was given, which that call has sorted.
\<close>

theorem analyze_twice_same_output:
  assumes "\<forall>t \<in> set ts. due t \<noteq> None"
  shows "snd (analyzeTaskData (rt\<lparr>Date_now := n\<rparr>) ts) = snd (analyzeTaskData rt ts)
       \<and> (list_all (consistentDue rt) ts \<longrightarrow>
            snd (analyzeTaskData (rt\<lparr>Date_now := n\<rparr>) (fst (analyzeTaskData rt ts)))
              = snd (analyzeTaskData rt ts))
       \<and> useEffect (rt\<lparr>Date_now := n\<rparr>) (useEffect rt (st\<lparr>tasks := ts\<rparr>))
           = useEffect rt (st\<lparr>tasks := ts\<rparr>)"
proof (intro conjI impI)
  have "analyzeTaskData (rt\<lparr>Date_now := n\<rparr>) ts = analyzeTaskData rt ts"
    using assms by (rule analyzeTaskData_clock)
  then show "snd (analyzeTaskData (rt\<lparr>Date_now := n\<rparr>) ts) = snd (analyzeTaskData rt ts)"
    by simp
next
  assume c: "list_all (consistentDue rt) ts"
  have "\<forall>t \<in> set (fst (analyzeTaskData rt ts)). due t \<noteq> None"
    using assms by (simp add: analyzeTaskData_def Let_def set_sortTasks)
  then have "analyzeTaskData (rt\<lparr>Date_now := n\<rparr>) (fst (analyzeTaskData rt ts))
      = analyzeTaskData rt (fst (analyzeTaskData rt ts))"
    by (rule analyzeTaskData_clock)
  with c show "snd (analyzeTaskData (rt\<lparr>Date_now := n\<rparr>) (fst (analyzeTaskData rt ts)))
           = snd (analyzeTaskData rt ts)"
    by (simp add: analyzeTaskData_again)
next
  have "\<forall>t \<in> set (tasks (useEffect rt (st\<lparr>tasks := ts\<rparr>))). due t \<noteq> None"
    using assms by (simp add: useEffect_def)
  then have "useEffect (rt\<lparr>Date_now := n\<rparr>) (useEffect rt (st\<lparr>tasks := ts\<rparr>))
      = useEffect rt (useEffect rt (st\<lparr>tasks := ts\<rparr>))"
    by (rule useEffect_clock)
  then show "useEffect (rt\<lparr>Date_now := n\<rparr>) (useEffect rt (st\<lparr>tasks := ts\<rparr>))
           = useEffect rt (st\<lparr>tasks := ts\<rparr>)"
    by (simp add: useEffect_again)
qed

text \<open>The example records and state, analysed again one second later.\<close>

theorem analyze_twice_same_output_witness:
  "snd (analyzeTaskData (sampleRuntime\<lparr>Date_now := 1793664001000\<rparr>) exampleTasks)
     = snd (analyzeTaskData sampleRuntime exampleTasks)
   \<and> snd (analyzeTaskData (sampleRuntime\<lparr>Date_now := 1793664001000\<rparr>)
            (fst (analyzeTaskData sampleRuntime exampleTasks)))
       = snd (analyzeTaskData sampleRuntime exampleTasks)
   \<and> useEffect (sampleRuntime\<lparr>Date_now := 1793664001000\<rparr>)
        (useEffect sampleRuntime (exampleApp\<lparr>tasks := exampleTasks\<rparr>))
       = useEffect sampleRuntime (exampleApp\<lparr>tasks := exampleTasks\<rparr>)"
proof -
  have h: "\<forall>t \<in> set exampleTasks. due t \<noteq> None"
    by (simp add: exampleTasks_def mkTask_def)
  have c: "list_all (consistentDue sampleRuntime) exampleTasks"
    by code_simp
  from analyze_twice_same_output [OF h, where rt = sampleRuntime and n = 1793664001000
      and st = exampleApp] c
  show ?thesis by blast
qed

section \<open>The sort in place\<close>

text \<open>After an upload the stored array is the sorted one.\<close>

lemma parseCSV_stores_sorted:
  "parsedTasks data = Inr ts \<Longrightarrow>
   parseCSV rt st data =
     Inr (st\<lparr>tasks := sortTasks rt ts, userStats := map snd (pass rt (sortTasks rt ts))\<rparr>)"
  by (simp add: parseCSV_def analyzeTaskData_def Let_def)

lemma useEffect_tasks: "tasks (useEffect rt st) = tasks st"
  by (simp add: useEffect_def)

text \<open>
  C4, the claim as stated fails: \<open>analyzeTaskData\<close> sorts the array it is given. The
  example records come back in another order.
\<close>

theorem analyzeTaskData_reorders_argument:
  "fst (analyzeTaskData sampleRuntime exampleTasks) = exampleSorted
   \<and> exampleSorted \<noteq> exampleTasks"
  by code_simp

text \<open>
  C4, amended. \<open>analyzeTaskData\<close> reorders the caller's array in place: it leaves in
  it the same records, each as often as before. Where every due field is a string
  that parses to a valid date the array ends up ascending by due date, records of
  equal date in their former order, and an array already ascending is left as it is.
  The effect of the window filter sorts a filtered copy and leaves the stored records
  as they were.
\<close>

theorem analyzeTaskData_sorts_in_place:
  "mset (fst (analyzeTaskData rt ts)) = mset ts
   \<and> (list_all (consistentDue rt) ts \<longrightarrow>
        sorted (map (timeOf rt) (fst (analyzeTaskData rt ts)))
        \<and> (\<forall>k. filter (\<lambda>t. timeOf rt t = k) (fst (analyzeTaskData rt ts))
                = filter (\<lambda>t. timeOf rt t = k) ts)
        \<and> (sorted (map (timeOf rt) ts) \<longrightarrow> fst (analyzeTaskData rt ts) = ts))
   \<and> tasks (useEffect rt st) = tasks st"
  by (simp add: analyzeTaskData_def Let_def mset_sortTasks sortTasks_consistent
      sort_key_stable sort_key_id_if_sorted useEffect_tasks)

text \<open>The example records, their sorted order, and the example state.\<close>

theorem analyzeTaskData_sorts_in_place_witness:
  "mset (fst (analyzeTaskData sampleRuntime exampleTasks)) = mset exampleTasks
   \<and> sorted (map (timeOf sampleRuntime) (fst (analyzeTaskData sampleRuntime exampleTasks)))
   \<and> filter (\<lambda>t. timeOf sampleRuntime t = 1709218800000)
        (fst (analyzeTaskData sampleRuntime exampleTasks))
       = filter (\<lambda>t. timeOf sampleRuntime t = 1709218800000) exampleTasks
   \<and> fst (analyzeTaskData sampleRuntime exampleSorted) = exampleSorted
   \<and> tasks (useEffect sampleRuntime exampleApp) = tasks exampleApp"
proof -
  have c: "list_all (consistentDue sampleRuntime) exampleTasks"
    by code_simp
  have d: "list_all (consistentDue sampleRuntime) exampleSorted"
    by code_simp
  have o: "sorted (map (timeOf sampleRuntime) exampleSorted)"
    by code_simp
  from analyzeTaskData_sorts_in_place [where rt = sampleRuntime and ts = exampleTasks
         and st = exampleApp]
       analyzeTaskData_sorts_in_place [where rt = sampleRuntime and ts = exampleSorted
         and st = exampleApp] c d o
  show ?thesis by blast
qed

section \<open>The day number\<close>

text \<open>
  \<open>MakeDay\<close> counts the days of the Gregorian calendar from 1 January 1970: the
  lemmas below step it by a day, a month and a year.
\<close>

lemma DayFromYear_epoch: "DayFromYear 1970 = 0"
  by (simp add: DayFromYear_def)

lemma div_step:
  fixes a k :: int
  assumes "0 < k"
  shows "(a + 1) div k = a div k + (if (a + 1) mod k = 0 then 1 else 0)"
proof -
  have a: "a = k * (a div k) + a mod k" by simp
  have r: "0 \<le> a mod k" "a mod k < k" using assms by simp_all
  show ?thesis
  proof (cases "a mod k + 1 = k")
    case True
    have "a + 1 = k * (a div k) + (a mod k + 1)" using a by simp
    also have "\<dots> = k * (a div k + 1) + 0" using True by (simp add: algebra_simps)
    finally have e: "a + 1 = k * (a div k + 1) + 0" .
    have "(a + 1) div k = a div k + 1"
      using e assms by (intro int_div_pos_eq [where r = 0]) simp_all
    moreover have "(a + 1) mod k = 0"
      using e assms by (intro int_mod_pos_eq [where q = "a div k + 1"]) simp_all
    ultimately show ?thesis by simp
  next
    case False
    with r have lt: "a mod k + 1 < k" by simp
    have e: "a + 1 = k * (a div k) + (a mod k + 1)" using a by simp
    have "(a + 1) div k = a div k"
      using e r lt by (intro int_div_pos_eq [where r = "a mod k + 1"]) simp_all
    moreover have "(a + 1) mod k = a mod k + 1"
      using e r lt by (intro int_mod_pos_eq [where q = "a div k"]) simp_all
    ultimately show ?thesis using r by simp
  qed
qed

lemma mod_shift: "(y - k * c) mod k = y mod (k::int)"
  using mod_mult_self2 [of y k "- c"] by simp

lemma DayFromYear_step:
  "DayFromYear (y + 1) = DayFromYear y + (if InLeapYear y then 366 else 365)"
proof -
  have 4: "(y + 1 - 1969) div 4 = (y - 1969) div 4 + (if y mod 4 = 0 then 1 else 0)"
    using div_step [of 4 "y - 1969"] mod_shift [of y 4 492] by simp
  have 100: "(y + 1 - 1901) div 100 = (y - 1901) div 100 + (if y mod 100 = 0 then 1 else 0)"
    using div_step [of 100 "y - 1901"] mod_shift [of y 100 19] by simp
  have 400: "(y + 1 - 1601) div 400 = (y - 1601) div 400 + (if y mod 400 = 0 then 1 else 0)"
    using div_step [of 400 "y - 1601"] mod_shift [of y 400 4] by simp
  have a: "y mod 400 = 0 \<Longrightarrow> y mod 100 = 0"
    using mod_mod_cancel [of 100 400 y] by simp
  have b: "y mod 100 = 0 \<Longrightarrow> y mod 4 = 0"
    using mod_mod_cancel [of 4 100 y] by simp
  have "DayFromYear (y + 1) = 365 * (y - 1970) + 365 + (y - 1969) div 4 - (y - 1901) div 100
      + (y - 1601) div 400 + (if y mod 4 = 0 then 1 else 0) - (if y mod 100 = 0 then 1 else 0)
      + (if y mod 400 = 0 then 1 else 0)"
    unfolding DayFromYear_def 4 100 400 by (simp only: algebra_simps)
  also have "\<dots> = DayFromYear y + 365 + ((if y mod 4 = 0 then 1 else 0)
      - (if y mod 100 = 0 then 1 else 0) + (if y mod 400 = 0 then 1 else 0))"
    unfolding DayFromYear_def by simp
  also have "(if y mod 4 = 0 then 1 else 0) - (if y mod 100 = 0 then 1 else 0)
      + (if y mod 400 = 0 then 1 else 0) = (if InLeapYear y then 1 else (0::int))"
    using a b unfolding InLeapYear_def by (cases "y mod 4 = 0"; cases "y mod 100 = 0"; cases "y mod 400 = 0") simp_all
  finally show ?thesis by simp
qed


lemma MakeDay_in_year:
  "0 \<le> m \<Longrightarrow> m < 12 \<Longrightarrow> MakeDay y m d = DayFromYear y + MonthStart y m + d - 1"
  by (simp add: MakeDay_def)

lemma month_cases:
  "1 \<le> (m::int) \<Longrightarrow> m \<le> 12 \<Longrightarrow>
   m = 1 \<or> m = 2 \<or> m = 3 \<or> m = 4 \<or> m = 5 \<or> m = 6 \<or> m = 7 \<or> m = 8 \<or> m = 9 \<or> m = 10
   \<or> m = 11 \<or> m = 12"
  by arith

text \<open>First of January, the next day, the next month, the next year.\<close>

lemma MakeDay_new_year: "MakeDay y 0 1 = DayFromYear y"
  by (simp add: MakeDay_def MonthStart_def)

lemma MakeDay_next_day: "MakeDay y m (d + 1) = MakeDay y m d + 1"
  by (simp add: MakeDay_def Let_def)

lemma MakeDay_next_month:
  assumes "1 \<le> m" and "m < 12"
  shows "MakeDay y m 1 = MakeDay y (m - 1) (DaysInMonth y m) + 1"
  using month_cases [of m] assms
  by (auto simp: MakeDay_def MonthStart_def DaysInMonth_def)

lemma MakeDay_next_year: "MakeDay (y + 1) 0 1 = MakeDay y 11 (DaysInMonth y 12) + 1"
  by (simp add: MakeDay_def MonthStart_def DaysInMonth_def DayFromYear_step)

section \<open>The date pattern\<close>

lemma not_digit_marks: "\<not> isDigit NEN" "\<not> isDigit GATSU" "\<not> isDigit NICHI"
  by (simp_all add: isDigit_def NEN_def GATSU_def NICHI_def)

lemma digits1_run:
  "ds \<noteq> [] \<Longrightarrow> list_all isDigit ds \<Longrightarrow> \<not> isDigit c \<Longrightarrow>
   digits1 (ds @ c # r) = Some (ds, c # r)"
  by (simp add: digits1_def list_all_iff takeWhile_append2 dropWhile_append2 Let_def)

lemma match_here_pattern:
  assumes "ys \<noteq> []" "list_all isDigit ys" "ms \<noteq> []" "list_all isDigit ms"
      and "ds \<noteq> []" "list_all isDigit ds"
  shows "match_here (ys @ NEN # ms @ GATSU # ds @ NICHI # rest) = Some (ys, ms, ds)"
  using assms by (simp add: match_here_def digits1_run not_digit_marks)

lemma match_pattern:
  assumes "ys \<noteq> []" "list_all isDigit ys" "ms \<noteq> []" "list_all isDigit ms"
      and "ds \<noteq> []" "list_all isDigit ds"
  shows "match (ys @ NEN # ms @ GATSU # ds @ NICHI # rest) = Some (ys, ms, ds)"
proof -
  from assms(1) obtain c cs where ys: "ys = c # cs" by (cases ys) auto
  have "match_here ((c # cs) @ NEN # ms @ GATSU # ds @ NICHI # rest) = Some (c # cs, ms, ds)"
    using assms unfolding ys by (rule match_here_pattern)
  then show ?thesis unfolding ys by simp
qed

text \<open>
  Text before the pattern is skipped, if it holds no U+5E74 and does not end in a
  digit (a digit there would belong to the year).
\<close>

lemma match_here_prefix:
  assumes "NEN \<notin> set pre" and "pre \<noteq> []" and "\<not> isDigit (last pre)"
  shows "match_here (pre @ s) = None"
proof -
  have l: "last pre \<in> set pre" using assms(2) by simp
  have t: "takeWhile isDigit (pre @ s) = takeWhile isDigit pre"
    using l assms(3) by (rule takeWhile_append1)
  have d: "dropWhile isDigit (pre @ s) = dropWhile isDigit pre @ s"
    using l assms(3) by (rule dropWhile_append1)
  have "dropWhile isDigit pre \<noteq> []"
    using l assms(3) by (auto simp: dropWhile_eq_Nil_conv)
  then obtain x r where xr: "dropWhile isDigit pre = x # r"
    by (cases "dropWhile isDigit pre") auto
  then have "x \<in> set pre"
    by (metis list.set_intros(1) set_dropWhileD)
  with assms(1) have "x \<noteq> NEN" by auto
  then show ?thesis
    by (simp add: match_here_def digits1_def Let_def t d xr)
qed

lemma match_prefix:
  "NEN \<notin> set pre \<Longrightarrow> pre = [] \<or> \<not> isDigit (last pre) \<Longrightarrow> match (pre @ s) = match s"
proof (induction pre)
  case Nil
  then show ?case by simp
next
  case (Cons c pre)
  then have "match_here ((c # pre) @ s) = None"
    by (intro match_here_prefix) simp_all
  moreover have "match (pre @ s) = match s"
    using Cons by (cases "pre = []") simp_all
  ultimately show ?case by simp
qed

lemma Number_nonneg_aux:
  "0 \<le> a \<Longrightarrow> list_all isDigit ds \<Longrightarrow>
   0 \<le> foldl (\<lambda>a c. 10 * a + (int (unat c) - 48)) a ds"
proof (induction ds arbitrary: a)
  case Nil
  then show ?case by simp
next
  case (Cons d ds)
  from Cons.prems have "48 \<le> uint d"
    by (simp add: isDigit_def word_le_def)
  with Cons.prems have "0 \<le> 10 * a + (int (unat d) - 48)" by simp
  with Cons show ?case by simp
qed

lemma Number_nonneg: "list_all isDigit ds \<Longrightarrow> 0 \<le> Number ds"
  unfolding Number_def by (rule Number_nonneg_aux) simp_all

text \<open>
  C9, the claim as stated fails for a year numeral from 0 to 99: the constructor
  reads it as a year of the twentieth century, so year 50 gives 1950-03-05, which is
  not the calendar date of year 50.
\<close>

theorem two_digit_year_counterexample:
  "fst (parseJapaneseDate sampleRuntime (Some (jpDate ''50'' ''3'' ''5'')))
     = calendarDate sampleRuntime 1950 3 5
   \<and> fst (parseJapaneseDate sampleRuntime (Some (jpDate ''50'' ''3'' ''5'')))
     \<noteq> calendarDate sampleRuntime 50 3 5"
  by code_simp

text \<open>
  C9, amended. For a string that holds a year numeral, U+5E74, a month numeral,
  U+6708, a day numeral and U+65E5, after text with no U+5E74 that does not end in a
  digit, the parser returns, with no diagnostic, the calendar date of the three
  numerals, the month counted from 1, where a year numeral from 0 to 99 stands for the
  years 1900 to 1999 and the date lies within the range of time values.
\<close>

theorem parse_japanese_pattern:
  assumes "NEN \<notin> set pre" and "pre = [] \<or> \<not> isDigit (last pre)"
      and "ys \<noteq> []" "list_all isDigit ys" "ms \<noteq> []" "list_all isDigit ms"
      and "ds \<noteq> []" "list_all isDigit ds"
      and "y = (if Number ys \<le> 99 then 1900 + Number ys else Number ys)"
      and "\<bar>UTC rt (MakeDate (MakeDay y (Number ms - 1) (Number ds)) 0)\<bar> \<le> maxTimeValue"
  shows "parseJapaneseDate rt (Some (pre @ ys @ NEN # ms @ GATSU # ds @ NICHI # rest))
           = (calendarDate rt y (Number ms) (Number ds), [])"
proof -
  have "0 \<le> Number ys" using assms(4) by (rule Number_nonneg)
  then have "MakeFullYear (Number ys) = y"
    using assms(9) by (simp add: MakeFullYear_def)
  moreover have "match (pre @ ys @ NEN # ms @ GATSU # ds @ NICHI # rest) = Some (ys, ms, ds)"
    using match_prefix [OF assms(1,2)] match_pattern [OF assms(3-8)] by simp
  ultimately show ?thesis
    using assms(10)
    by (simp add: parseJapaneseDate_def parseJapaneseDate_try_def
        Date_ymd_def TimeClip_def calendarDate_def)
qed

theorem parse_japanese_pattern_witness:
  "parseJapaneseDate sampleRuntime (Some (jpDate ''2024'' ''3'' ''5''))
     = (calendarDate sampleRuntime 2024 3 5, [])
   \<and> calendarDate sampleRuntime 2024 3 5 = TimeValue 1709564400000"
proof -
  have d: "list_all isDigit (ascii ''2024'')" "list_all isDigit (ascii ''3'')"
    "list_all isDigit (ascii ''5'')"
    by (simp_all add: ascii_def isDigit_def)
  have n: "Number (ascii ''2024'') = 2024" "Number (ascii ''3'') = 3" "Number (ascii ''5'') = 5"
    by (simp_all add: ascii_def Number_def)
  have ne: "ascii ''2024'' \<noteq> []" "ascii ''3'' \<noteq> []" "ascii ''5'' \<noteq> []"
    by (simp_all add: ascii_def)
  have y: "(2024::int) = (if Number (ascii ''2024'') \<le> 99 then 1900 + Number (ascii ''2024'')
      else Number (ascii ''2024''))"
    by (simp add: n)
  have c: "calendarDate sampleRuntime 2024 3 5 = TimeValue 1709564400000"
    by (simp add: calendarDate_def UTC_def MakeDate_def MakeDay_def DayFromYear_def
        MonthStart_def InLeapYear_def msPerDay_def sampleRuntime_def)
  have r: "\<bar>UTC sampleRuntime (MakeDate (MakeDay 2024 (Number (ascii ''3'') - 1) (Number (ascii ''5''))) 0)\<bar>
      \<le> maxTimeValue"
    by (simp add: n UTC_def MakeDate_def MakeDay_def DayFromYear_def
        MonthStart_def InLeapYear_def msPerDay_def sampleRuntime_def maxTimeValue_def)
  have e: "NEN \<notin> set []" "[] = [] \<or> \<not> isDigit (last [])"
    by simp_all
  from parse_japanese_pattern [OF e ne(1) d(1) ne(2) d(2) ne(3) d(3) y r, of "[]"] c
  show ?thesis by (simp add: jpDate_def n)
qed

section \<open>A string that is no date\<close>

lemma parseJapaneseDate_try_string: "\<exists>d. parseJapaneseDate_try rt (Some s) = Inr d"
  by (simp add: parseJapaneseDate_try_def split: option.splits prod.splits)

text \<open>
  C6, at the failing input. For a string that the pattern does not match and that
  the runtime's parser rejects, nothing is thrown inside the \<open>try\<close>, so the
  \<open>catch\<close> does not run: the parser returns the invalid date, not the current date,
  and writes no diagnostic.
\<close>

theorem unparsable_string_gives_invalid_date:
  assumes "match s = None" and "Date_parse rt s = InvalidDate"
  shows "parseJapaneseDate_try rt (Some s) = Inr InvalidDate
       \<and> parseJapaneseDate rt (Some s) = (InvalidDate, [])"
  using assms by (simp add: parseJapaneseDate_def parseJapaneseDate_try_def Date_string_def)

text \<open>The string \<open>abc\<close>: the result is not what the \<open>catch\<close> would return.\<close>

theorem unparsable_string_gives_invalid_date_witness:
  "match (ascii ''abc'') = None \<and> Date_parse sampleRuntime (ascii ''abc'') = InvalidDate
   \<and> parseJapaneseDate sampleRuntime (Some (ascii ''abc'')) = (InvalidDate, [])
   \<and> parseJapaneseDate sampleRuntime (Some (ascii ''abc'')) \<noteq> (TimeValue (Date_now sampleRuntime), [ErrorParsingDate (Some (ascii ''abc'')) TypeError])"
proof -
  have m: "match (ascii ''abc'') = None" by code_simp
  have p: "Date_parse sampleRuntime (ascii ''abc'') = InvalidDate" by code_simp
  from unparsable_string_gives_invalid_date [OF m p] m p show ?thesis by simp
qed

section \<open>The window filter\<close>

lemma windowStart_open: "windowStart rt [] = TimeValue 0"
  by (simp add: windowStart_def Date_value_def TimeClip_def maxTimeValue_def)

lemma windowEnd_open: "windowEnd rt [] = TimeValue maxTimeValue"
  by (simp add: windowEnd_def Date_value_def TimeClip_def maxTimeValue_def)

lemma inWindow_iff:
  "inWindow rt sd ed t =
     (\<exists>v a b. fst (parseJapaneseDate rt (due t)) = TimeValue v \<and> windowStart rt sd = TimeValue a
        \<and> windowEnd rt ed = TimeValue b \<and> a \<le> v \<and> v \<le> b)"
  by (cases "fst (parseJapaneseDate rt (due t))"; cases "windowStart rt sd"; cases "windowEnd rt ed")
     (auto simp: inWindow_def Let_def)

lemma open_window_drops_before_epoch:
  "fst (parseJapaneseDate rt (due t)) = TimeValue v \<Longrightarrow> v < 0 \<Longrightarrow> \<not> inWindow rt [] ed t"
  by (simp add: inWindow_iff windowStart_open)

lemma inWindow_invalid:
  "fst (parseJapaneseDate rt (due t)) = InvalidDate \<Longrightarrow> \<not> inWindow rt sd ed t"
  by (simp add: inWindow_iff)

lemma filteredTasks_validDue:
  "filteredTasks rt sd ed (filter (validDue rt) ts) = filteredTasks rt sd ed ts"
  unfolding filteredTasks_def filter_filter
  by (rule filter_cong) (auto simp: validDue_def inWindow_invalid)

lemma useEffect_validDue:
  "userStats (useEffect rt st) =
       (if tasks st = [] then userStats st
        else snd (analyzeTaskData rt
               (filteredTasks rt (startDate st) (endDate st) (filter (validDue rt) (tasks st)))))"
  by (simp add: useEffect_def filteredTasks_validDue)

lemma filteredTasks_drop_invalid:
  "fst (parseJapaneseDate rt (due t)) = InvalidDate \<Longrightarrow>
   filteredTasks rt sd ed (ts1 @ t # ts2) = filteredTasks rt sd ed (ts1 @ ts2)"
  by (simp add: filteredTasks_def inWindow_invalid)

text \<open>
  C3, at the failing input. With both bounds open the start of the window is the
  epoch, time value 0, not the least time value \<open>- maxTimeValue\<close>, while the end is
  the greatest time value. A record due on 1 January 1960 has a valid date within the
  range of time values and is dropped.
\<close>

theorem open_start_is_epoch:
  "windowStart sampleRuntime [] = TimeValue 0
   \<and> Date_value (- maxTimeValue) = TimeValue (- maxTimeValue)
   \<and> windowEnd sampleRuntime [] = TimeValue maxTimeValue
   \<and> fst (parseJapaneseDate sampleRuntime (due oldTask)) = TimeValue (- 315651600000)
   \<and> filteredTasks sampleRuntime [] [] [oldTask] = []"
  by code_simp

text \<open>
  C10. A due string that the pattern does not match and the runtime's parser rejects
  parses to the invalid date. A record whose due date is invalid is outside every
  window, the open one included, so the filter drops it, and the statistics that the
  effect computes are those of the records with a valid due date.
\<close>

theorem invalid_due_date_excluded:
  "(match s = None \<and> Date_parse rt s = InvalidDate
      \<longrightarrow> fst (parseJapaneseDate rt (Some s)) = InvalidDate)
   \<and> (fst (parseJapaneseDate rt (due t)) = InvalidDate
      \<longrightarrow> \<not> inWindow rt [] [] t \<and> \<not> inWindow rt sd ed t
          \<and> t \<notin> set (filteredTasks rt sd ed ts)
          \<and> filteredTasks rt sd ed (ts1 @ t # ts2) = filteredTasks rt sd ed (ts1 @ ts2))
   \<and> userStats (useEffect rt st) =
       (if tasks st = [] then userStats st
        else snd (analyzeTaskData rt
               (filteredTasks rt (startDate st) (endDate st) (filter (validDue rt) (tasks st)))))"
proof (intro conjI impI)
  assume "match s = None \<and> Date_parse rt s = InvalidDate"
  then show "fst (parseJapaneseDate rt (Some s)) = InvalidDate"
    by (simp add: parseJapaneseDate_def parseJapaneseDate_try_def Date_string_def)
next
  assume inv: "fst (parseJapaneseDate rt (due t)) = InvalidDate"
  then show "\<not> inWindow rt [] [] t" and w: "\<not> inWindow rt sd ed t"
    by (rule inWindow_invalid)+
  from w show "t \<notin> set (filteredTasks rt sd ed ts)"
    by (simp add: filteredTasks_def)
  from inv show "filteredTasks rt sd ed (ts1 @ t # ts2) = filteredTasks rt sd ed (ts1 @ ts2)"
    by (rule filteredTasks_drop_invalid)
next
  show "userStats (useEffect rt st) =
       (if tasks st = [] then userStats st
        else snd (analyzeTaskData rt
               (filteredTasks rt (startDate st) (endDate st) (filter (validDue rt) (tasks st)))))"
    by (rule useEffect_validDue)
qed

text \<open>The record whose due string is \<open>abc\<close>, put after the example records.\<close>

theorem invalid_due_date_excluded_witness:
  "match (ascii ''abc'') = None
   \<and> Date_parse sampleRuntime (ascii ''abc'') = InvalidDate
   \<and> fst (parseJapaneseDate sampleRuntime (due badTask)) = InvalidDate
   \<and> \<not> inWindow sampleRuntime [] [] badTask
   \<and> filteredTasks sampleRuntime [] [] (exampleTasks @ badTask # [])
       = filteredTasks sampleRuntime [] [] (exampleTasks @ [])"
proof -
  have m: "match (ascii ''abc'') = None" by code_simp
  have p: "Date_parse sampleRuntime (ascii ''abc'') = InvalidDate" by code_simp
  have d: "due badTask = Some (ascii ''abc'')" by (simp add: badTask_def mkTask_def)
  note th = invalid_due_date_excluded [where rt = sampleRuntime and t = badTask
      and s = "ascii ''abc''" and sd = "[]" and ed = "[]"
      and ?ts1.0 = exampleTasks and ?ts2.0 = "[]"]
  from th m p d have i: "fst (parseJapaneseDate sampleRuntime (due badTask)) = InvalidDate"
    by simp
  from th i m p show ?thesis by blast
qed

section \<open>Ingestion\<close>

lemma findIndex_ge: "- 1 \<le> findIndex p xs"
  by (induction xs) (auto simp: Let_def)

lemma findIndex_none: "(findIndex p xs = - 1) = (\<forall>x \<in> set xs. \<not> p x)"
proof (induction xs)
  case Nil
  then show ?case by simp
next
  case (Cons x xs)
  have "findIndex p xs + 1 \<noteq> - 1" using findIndex_ge [of p xs] by simp
  with Cons show ?case by (auto simp: Let_def)
qed

lemma indexOf_none: "(indexOf xs x = - 1) = (x \<notin> set xs)"
  unfolding indexOf_def findIndex_none by auto

lemma at_minus_one: "at xs (- 1) = None"
  by (simp add: at_def)

lemma at_missing: "x \<notin> set xs \<Longrightarrow> at row (indexOf xs x) = None"
  by (simp add: indexOf_none [symmetric] at_minus_one)

lemma truthy_iff: "truthy c = (\<exists>s. c = Some s \<and> s \<noteq> [])"
  by (cases c) (simp_all add: truthy_def)

lemma split_nonempty: "split sep s \<noteq> []"
  by (induction s) (auto split: list.splits)

lemma split_first: "at (split sep s) 0 = Some (takeWhile (\<lambda>c. c \<noteq> sep) s)"
proof (induction s)
  case Nil
  then show ?case by (simp add: at_def)
next
  case (Cons c s)
  then show ?case
    using split_nonempty [of sep s] by (auto simp: at_def split: list.splits if_splits)
qed

lemma userFromTaskName_Some:
  "userFromTaskName (Some t) = Inr (Some (trim (takeWhile (\<lambda>c. c \<noteq> COLON) t)))"
  by (simp add: userFromTaskName_def split_first)

lemma userFromTaskName_None: "userFromTaskName None = Inl TypeError"
  by (simp add: userFromTaskName_def)

lemma mapRows_Inr:
  "mapRows f rs = Inr ts \<Longrightarrow>
   length ts = length rs \<and> (\<forall>i < length rs. f (rs ! i) = Inr (ts ! i))"
proof (induction rs arbitrary: ts)
  case Nil
  then show ?case by simp
next
  case (Cons r rs)
  from Cons.prems obtain t ts' where
    t: "f r = Inr t" and ts': "mapRows f rs = Inr ts'" and ts: "ts = t # ts'"
    by (auto split: sum.splits)
  from Cons.IH [OF ts'] t ts show ?case
    by (auto simp: nth_Cons split: nat.splits)
qed

lemma mapRows_Inl:
  "r \<in> set rs \<Longrightarrow> f r = Inl TypeError \<Longrightarrow> mapRows f rs = Inl TypeError"
proof (induction rs)
  case Nil
  then show ?case by simp
next
  case (Cons a rs)
  have e: "\<And>x. x = TypeError" by (metis error.exhaust)
  show ?case
  proof (cases "f a")
    case (Inl x)
    then show ?thesis using e [of x] by simp
  next
    case (Inr t)
    with Cons have "mapRows f rs = Inl TypeError" by auto
    with Inr show ?thesis by simp
  qed
qed

lemma mapRows_all_Inr:
  "\<forall>r \<in> set rs. \<exists>t. f r = Inr t \<Longrightarrow> \<exists>ts. mapRows f rs = Inr ts"
  by (induction rs) auto

lemma parsedTasks_Cons:
  "parsedTasks (headers # rows) =
     mapRows (parseRow headers (findIndex (\<lambda>h. toLowerCase h = ascii ''user_name'') headers)) rows"
  by (simp add: parsedTasks_def at_def)

lemma parseRow_fails:
  "(parseRow headers idx row = Inl TypeError) =
     (\<not> truthy (at row idx) \<and> at row (indexOf headers (ascii ''Task name'')) = None)"
proof (cases "at row (indexOf headers (ascii ''Task name''))")
  case None
  then show ?thesis
    by (auto simp: parseRow_def Let_def userFromTaskName_None truthy_def at_minus_one)
next
  case (Some t)
  then show ?thesis
    by (auto simp: parseRow_def Let_def userFromTaskName_Some)
qed

lemma parseRow_Inr:
  assumes "parseRow headers idx row = Inr t"
  shows "status t = at row (indexOf headers (ascii ''Status''))"
    and "taskName t = at row (indexOf headers (ascii ''Task name''))"
    and "assignee t = at row (indexOf headers (ascii ''Assignee''))"
    and "due t = at row (indexOf headers (ascii ''Due''))"
    and "Task.user t = (if idx \<noteq> - 1 \<and> truthy (at row idx) then at row idx
           else map_option (\<lambda>n. trim (takeWhile (\<lambda>c. c \<noteq> COLON) n)) (taskName t))"
    and "\<not> (idx \<noteq> - 1 \<and> truthy (at row idx)) \<Longrightarrow> taskName t \<noteq> None"
  using assms
  by (cases "at row (indexOf headers (ascii ''Task name''))";
      auto simp: parseRow_def Let_def userFromTaskName_None userFromTaskName_Some
        split: if_splits)+

text \<open>
  What \<open>trim\<close> returns: the string without the white space at its two ends, and
  without more.
\<close>

lemma trim_spec:
  "\<exists>l r. s = l @ trim s @ r \<and> list_all isWhiteSpace l \<and> list_all isWhiteSpace r
     \<and> (trim s = [] \<or> (\<not> isWhiteSpace (hd (trim s)) \<and> \<not> isWhiteSpace (last (trim s))))"
proof -
  let ?l = "takeWhile isWhiteSpace s"
  let ?d = "dropWhile isWhiteSpace s"
  let ?r = "rev (takeWhile isWhiteSpace (rev ?d))"
  have t: "trim s = rev (dropWhile isWhiteSpace (rev ?d))" by (simp add: trim_def)
  have "rev (rev ?d) = rev (takeWhile isWhiteSpace (rev ?d) @ dropWhile isWhiteSpace (rev ?d))"
    by (simp only: takeWhile_dropWhile_id)
  then have d: "?d = trim s @ ?r" by (simp only: rev_append rev_rev_ident t)
  have "s = ?l @ ?d" by simp
  with d have 1: "s = ?l @ trim s @ ?r" by simp
  have 2: "list_all isWhiteSpace ?l"
    by (simp add: list_all_iff) (metis set_takeWhileD)
  have 3: "list_all isWhiteSpace ?r"
    by (simp add: list_all_iff) (metis set_takeWhileD)
  have 4: "\<not> isWhiteSpace (hd (trim s)) \<and> \<not> isWhiteSpace (last (trim s))" if ne: "trim s \<noteq> []"
  proof
    from ne have dn: "dropWhile isWhiteSpace (rev ?d) \<noteq> []" by (simp add: t)
    then have "\<not> isWhiteSpace (hd (dropWhile isWhiteSpace (rev ?d)))" by (rule hd_dropWhile)
    with dn show "\<not> isWhiteSpace (last (trim s))" by (simp add: t last_rev)
    from d ne have "?d \<noteq> []" by (metis append_is_Nil_conv)
    then have "\<not> isWhiteSpace (hd ?d)" by (rule hd_dropWhile)
    moreover from d ne have "hd ?d = hd (trim s)" by (metis hd_append2)
    ultimately show "\<not> isWhiteSpace (hd (trim s))" by simp
  qed
  from 1 2 3 4 show ?thesis by blast
qed

text \<open>
  C7. For every row of a grid whose ingestion succeeds, the user of the record is the
  cell of the \<open>user_name\<close> column (the first header equal to \<open>user_name\<close> when
  lowered), as it stands, where that column exists and the cell is a non-empty string.
  Otherwise the task name is a string and the user is its part before the first colon
  without the white space at its two ends: that part is white space, then the user,
  then white space, and the user, unless empty, neither starts nor ends with white
  space.
\<close>

theorem entity_key_derivation:
  assumes "parsedTasks (headers # rows) = Inr ts" and "i < length rows"
      and "idx = findIndex (\<lambda>h. toLowerCase h = ascii ''user_name'') headers"
      and "cell = at (rows ! i) idx"
  shows "taskName (ts ! i) = at (rows ! i) (indexOf headers (ascii ''Task name''))
       \<and> (if (\<exists>h \<in> set headers. toLowerCase h = ascii ''user_name'')
              \<and> (\<exists>c. cell = Some c \<and> c \<noteq> [])
           then Task.user (ts ! i) = cell
           else \<exists>t l key r. taskName (ts ! i) = Some t
                  \<and> takeWhile (\<lambda>c. c \<noteq> COLON) t = l @ key @ r
                  \<and> list_all isWhiteSpace l \<and> list_all isWhiteSpace r
                  \<and> (key = [] \<or> (\<not> isWhiteSpace (hd key) \<and> \<not> isWhiteSpace (last key)))
                  \<and> Task.user (ts ! i) = Some key)"
proof -
  from assms(1) have "mapRows (parseRow headers idx) rows = Inr ts"
    by (simp add: parsedTasks_Cons assms(3))
  with assms(2) have r: "parseRow headers idx (rows ! i) = Inr (ts ! i)"
    by (simp add: mapRows_Inr)
  have c: "(idx \<noteq> - 1 \<and> truthy (at (rows ! i) idx)) =
      ((\<exists>h \<in> set headers. toLowerCase h = ascii ''user_name'') \<and> (\<exists>c. cell = Some c \<and> c \<noteq> []))"
    by (simp add: assms(3) assms(4) findIndex_none truthy_iff)
  show ?thesis
  proof (cases "idx \<noteq> - 1 \<and> truthy (at (rows ! i) idx)")
    case True
    with parseRow_Inr(2,5) [OF r] c show ?thesis by (simp add: assms(4))
  next
    case False
    with parseRow_Inr(6) [OF r] obtain t where t: "taskName (ts ! i) = Some t" by auto
    let ?p = "takeWhile (\<lambda>c. c \<noteq> COLON) t"
    from False t parseRow_Inr(5) [OF r] have u: "Task.user (ts ! i) = Some (trim ?p)"
      by auto
    from trim_spec [of ?p] obtain l r where
      "?p = l @ trim ?p @ r" "list_all isWhiteSpace l" "list_all isWhiteSpace r"
      "trim ?p = [] \<or> (\<not> isWhiteSpace (hd (trim ?p)) \<and> \<not> isWhiteSpace (last (trim ?p)))"
      by blast
    with t u have ex: "\<exists>t l key r. taskName (ts ! i) = Some t
                  \<and> takeWhile (\<lambda>c. c \<noteq> COLON) t = l @ key @ r
                  \<and> list_all isWhiteSpace l \<and> list_all isWhiteSpace r
                  \<and> (key = [] \<or> (\<not> isWhiteSpace (hd key) \<and> \<not> isWhiteSpace (last key)))
                  \<and> Task.user (ts ! i) = Some key"
      by blast
    from False c have nc: "\<not> ((\<exists>h \<in> set headers. toLowerCase h = ascii ''user_name'')
        \<and> (\<exists>c. cell = Some c \<and> c \<noteq> []))"
      by simp
    show ?thesis
      unfolding if_not_P [OF nc] using parseRow_Inr(2) [OF r] ex by (rule conjI)
  qed
qed

text \<open>
  Three rows: \<open>Design: write spec\<close> with an empty \<open>user_name\<close> cell gives the user
  \<open>Design\<close>; a task name with white space around \<open>Team A\<close> gives \<open>Team A\<close>; a
  \<open>user_name\<close> cell with a space on either side is taken as it stands.
\<close>

theorem entity_key_derivation_witness:
  "parsedTasks (hd keyGrid # tl keyGrid) = Inr keyRecords
   \<and> taskName (keyRecords ! 0) = Some (ascii ''Design: write spec'')
   \<and> Task.user (keyRecords ! 0) = Some (ascii ''Design'')
   \<and> taskName (keyRecords ! 1) = Some paddedName
   \<and> Task.user (keyRecords ! 1) = Some (ascii ''Team A'')
   \<and> (\<exists>l r. takeWhile (\<lambda>c. c \<noteq> COLON) paddedName = l @ ascii ''Team A'' @ r
         \<and> list_all isWhiteSpace l \<and> list_all isWhiteSpace r)
   \<and> Task.user (keyRecords ! 2) = at (tl keyGrid ! 2) 4
   \<and> at (tl keyGrid ! 2) 4 = Some (ascii '' dave '')"
proof -
  have p: "parsedTasks (hd keyGrid # tl keyGrid) = Inr keyRecords"
    by code_simp
  have i: "findIndex (\<lambda>h. toLowerCase h = ascii ''user_name'') (hd keyGrid) = 4"
    by code_simp
  have h: "\<exists>h \<in> set (hd keyGrid). toLowerCase h = ascii ''user_name''"
    by code_simp
  have l: "0 < length (tl keyGrid)" "1 < length (tl keyGrid)" "2 < length (tl keyGrid)"
    by (simp_all add: keyGrid_def)
  have c: "at (tl keyGrid ! 0) 4 = Some []" "at (tl keyGrid ! 1) 4 = Some []"
    "at (tl keyGrid ! 2) 4 = Some (ascii '' dave '')" "ascii '' dave '' \<noteq> []"
    by code_simp+
  have n: "taskName (keyRecords ! 0) = Some (ascii ''Design: write spec'')"
    "Task.user (keyRecords ! 0) = Some (ascii ''Design'')"
    "taskName (keyRecords ! 1) = Some paddedName"
    "Task.user (keyRecords ! 1) = Some (ascii ''Team A'')"
    by (simp_all add: keyRecords_def)
  note th = entity_key_derivation [OF p _ i [symmetric] refl]
  have nc: "\<not> ((\<exists>h \<in> set (hd keyGrid). toLowerCase h = ascii ''user_name'')
      \<and> (\<exists>c. at (tl keyGrid ! 1) 4 = Some c \<and> c \<noteq> []))"
    using c(2) by simp
  from th [OF l(2)] have "\<exists>t l key r. taskName (keyRecords ! 1) = Some t
      \<and> takeWhile (\<lambda>c. c \<noteq> COLON) t = l @ key @ r
      \<and> list_all isWhiteSpace l \<and> list_all isWhiteSpace r
      \<and> (key = [] \<or> (\<not> isWhiteSpace (hd key) \<and> \<not> isWhiteSpace (last key)))
      \<and> Task.user (keyRecords ! 1) = Some key"
    unfolding if_not_P [OF nc] by (rule conjunct2)
  then obtain t l key r where k: "taskName (keyRecords ! 1) = Some t"
    "takeWhile (\<lambda>c. c \<noteq> COLON) t = l @ key @ r"
    "list_all isWhiteSpace l" "list_all isWhiteSpace r"
    "Task.user (keyRecords ! 1) = Some key"
    by blast
  from k(1,5) n(3,4) have "t = paddedName" "key = ascii ''Team A''" by simp_all
  with k(2,3,4)
  have 1: "\<exists>l r. takeWhile (\<lambda>c. c \<noteq> COLON) paddedName = l @ ascii ''Team A'' @ r
         \<and> list_all isWhiteSpace l \<and> list_all isWhiteSpace r"
    by blast
  have yc: "(\<exists>h \<in> set (hd keyGrid). toLowerCase h = ascii ''user_name'')
      \<and> (\<exists>c. at (tl keyGrid ! 2) 4 = Some c \<and> c \<noteq> [])"
    using h c(3,4) by simp
  from th [OF l(3)] have 2: "Task.user (keyRecords ! 2) = at (tl keyGrid ! 2) 4"
    unfolding if_P [OF yc] by (rule conjunct2)
  from p n 1 2 c(3) show ?thesis by blast
qed

text \<open>
  C5, the claim as stated fails: with no \<open>Status\<close> column the ingestion succeeds, and
  the record has no status.
\<close>

theorem missing_status_column_counterexample:
  "ascii ''Status'' \<notin> set (hd noStatusGrid)
   \<and> parsedTasks noStatusGrid = Inr [noStatusRecord]"
  by code_simp

text \<open>
  C5, amended. The ingestion fails, with a TypeError and no records, exactly when
  some data row has neither a non-empty \<open>user_name\<close> cell nor a task-name cell: so it
  does when the \<open>Task name\<close> column is absent and some row has no non-empty
  \<open>user_name\<close> cell. Where the ingestion succeeds it gives one record for each data
  row, and a column absent among Status, Assignee, Due and Task name leaves that field
  undefined in every record.
\<close>

theorem missing_required_column:
  assumes "idx = findIndex (\<lambda>h. toLowerCase h = ascii ''user_name'') headers"
  shows "(parsedTasks (headers # rows) = Inl TypeError) =
           (\<exists>row \<in> set rows. \<not> truthy (at row idx)
              \<and> at row (indexOf headers (ascii ''Task name'')) = None)
       \<and> (ascii ''Task name'' \<notin> set headers \<and> (\<exists>row \<in> set rows. \<not> truthy (at row idx))
            \<longrightarrow> parsedTasks (headers # rows) = Inl TypeError)
       \<and> (parsedTasks (headers # rows) = Inr ts \<longrightarrow>
            length ts = length rows
            \<and> (ascii ''Status'' \<notin> set headers \<longrightarrow> (\<forall>t \<in> set ts. status t = None))
            \<and> (ascii ''Assignee'' \<notin> set headers \<longrightarrow> (\<forall>t \<in> set ts. assignee t = None))
            \<and> (ascii ''Due'' \<notin> set headers \<longrightarrow> (\<forall>t \<in> set ts. due t = None))
            \<and> (ascii ''Task name'' \<notin> set headers \<longrightarrow> (\<forall>t \<in> set ts. taskName t = None)))"
proof (intro conjI impI)
  let ?f = "parseRow headers idx"
  have p: "parsedTasks (headers # rows) = mapRows ?f rows"
    by (simp add: parsedTasks_Cons assms)
  show char: "(parsedTasks (headers # rows) = Inl TypeError) =
           (\<exists>row \<in> set rows. \<not> truthy (at row idx)
              \<and> at row (indexOf headers (ascii ''Task name'')) = None)"
  proof
    assume l: "parsedTasks (headers # rows) = Inl TypeError"
    show "\<exists>row \<in> set rows. \<not> truthy (at row idx)
              \<and> at row (indexOf headers (ascii ''Task name'')) = None"
    proof (rule ccontr)
      assume "\<not> ?thesis"
      then have "\<forall>r \<in> set rows. ?f r \<noteq> Inl TypeError"
        by (simp add: parseRow_fails)
      then have "\<forall>r \<in> set rows. \<exists>t. ?f r = Inr t"
        by (metis error.exhaust sum.exhaust)
      then have "\<exists>ts. mapRows ?f rows = Inr ts" by (rule mapRows_all_Inr)
      with l p show False by simp
    qed
  next
    assume "\<exists>row \<in> set rows. \<not> truthy (at row idx)
              \<and> at row (indexOf headers (ascii ''Task name'')) = None"
    then obtain row where "row \<in> set rows" "?f row = Inl TypeError"
      by (auto simp: parseRow_fails)
    then have "mapRows ?f rows = Inl TypeError" by (rule mapRows_Inl)
    with p show "parsedTasks (headers # rows) = Inl TypeError" by simp
  qed
  {
    assume "ascii ''Task name'' \<notin> set headers \<and> (\<exists>row \<in> set rows. \<not> truthy (at row idx))"
    then show "parsedTasks (headers # rows) = Inl TypeError"
      unfolding char by (auto simp: at_missing)
  }
  {
    assume ok: "parsedTasks (headers # rows) = Inr ts"
    with p have m: "mapRows ?f rows = Inr ts" by simp
    then show len: "length ts = length rows" by (simp add: mapRows_Inr)
    have row: "\<exists>r. ?f r = Inr t" if "t \<in> set ts" for t
    proof -
      from that obtain i where "i < length ts" "ts ! i = t" by (auto simp: in_set_conv_nth)
      with m len show ?thesis using mapRows_Inr [OF m] by auto
    qed
    {
      assume "ascii ''Status'' \<notin> set headers"
      then show "\<forall>t \<in> set ts. status t = None"
        using row parseRow_Inr(1) by (metis at_missing)
    }
    {
      assume "ascii ''Assignee'' \<notin> set headers"
      then show "\<forall>t \<in> set ts. assignee t = None"
        using row parseRow_Inr(3) by (metis at_missing)
    }
    {
      assume "ascii ''Due'' \<notin> set headers"
      then show "\<forall>t \<in> set ts. due t = None"
        using row parseRow_Inr(4) by (metis at_missing)
    }
    {
      assume "ascii ''Task name'' \<notin> set headers"
      then show "\<forall>t \<in> set ts. taskName t = None"
        using row parseRow_Inr(2) by (metis at_missing)
    }
  }
qed

text \<open>
  The grid without the \<open>Task name\<close> column fails; the grid without the \<open>Status\<close>
  column gives one record, with no status.
\<close>

theorem missing_required_column_witness:
  "ascii ''Task name'' \<notin> set (hd noTaskNameGrid)
   \<and> parsedTasks (hd noTaskNameGrid # tl noTaskNameGrid) = Inl TypeError
   \<and> ascii ''Status'' \<notin> set (hd noStatusGrid)
   \<and> parsedTasks (hd noStatusGrid # tl noStatusGrid) = Inr [noStatusRecord]
   \<and> length [noStatusRecord] = length (tl noStatusGrid)
   \<and> status noStatusRecord = None
   \<and> parsedTasks (hd bareGrid # tl bareGrid) = Inr [bareRecord]
   \<and> assignee bareRecord = None \<and> due bareRecord = None \<and> taskName bareRecord = None"
proof -
  have a: "ascii ''Task name'' \<notin> set (hd noTaskNameGrid)" by code_simp
  have b: "\<exists>row \<in> set (tl noTaskNameGrid). \<not> truthy (at row
     (findIndex (\<lambda>h. toLowerCase h = ascii ''user_name'') (hd noTaskNameGrid)))"
    by code_simp
  have c: "ascii ''Status'' \<notin> set (hd noStatusGrid)" by code_simp
  have p: "parsedTasks (hd noStatusGrid # tl noStatusGrid) = Inr [noStatusRecord]"
    by code_simp
  have q: "parsedTasks (hd bareGrid # tl bareGrid) = Inr [bareRecord]"
    by code_simp
  have h: "ascii ''Assignee'' \<notin> set (hd bareGrid)" "ascii ''Due'' \<notin> set (hd bareGrid)"
    "ascii ''Task name'' \<notin> set (hd bareGrid)"
    by code_simp+
  from missing_required_column [OF refl, of "hd noTaskNameGrid" "tl noTaskNameGrid"] a b
  have 1: "parsedTasks (hd noTaskNameGrid # tl noTaskNameGrid) = Inl TypeError" by blast
  from missing_required_column [OF refl, of "hd noStatusGrid" "tl noStatusGrid" "[noStatusRecord]"] p c
  have 2: "length [noStatusRecord] = length (tl noStatusGrid) \<and> status noStatusRecord = None"
    by simp
  from missing_required_column [OF refl, of "hd bareGrid" "tl bareGrid" "[bareRecord]"] q h
  have 3: "assignee bareRecord = None \<and> due bareRecord = None \<and> taskName bareRecord = None"
    by simp
  from a c p q 1 2 3 show ?thesis by blast
qed

end
